theory Spec2Isabelle
  imports Main "HOL-Library.AList" "HOL-Library.Sublist"
begin

section \<open>Text\<close>

text \<open>
  A Python \<open>str\<close> is a sequence of Unicode code points; it is modelled as a list of
  natural numbers, one per code point. The bytes of a file are modelled the same way,
  one number per byte. \<open>py\<close> turns a literal of the source into its code points.
\<close>

type_synonym str = "nat list"

definition py :: "string \<Rightarrow> str" where
  "py cs = map of_char cs"

text \<open>\<open>str(n)\<close> for an integer: decimal digits, with a leading minus sign when negative.\<close>

fun str_nat :: "nat \<Rightarrow> str" where
  "str_nat n = (if n < 10 then [48 + n] else str_nat (n div 10) @ [48 + n mod 10])"

declare str_nat.simps [simp del]

definition str_int :: "int \<Rightarrow> str" where
  "str_int i = (if i < 0 then 45 # str_nat (nat (- i)) else str_nat (nat i))"

text \<open>The conversions \<open>%02d\<close>, \<open>%04d\<close> and \<open>%06d\<close> of a number that is not negative.\<close>

definition zpad :: "nat \<Rightarrow> nat \<Rightarrow> str" where
  "zpad w n = replicate (w - length (str_nat n)) 48 @ str_nat n"

text \<open>\<open>sep.join(xs)\<close>.\<close>

fun join :: "str \<Rightarrow> str list \<Rightarrow> str" where
  "join sep [] = []"
| "join sep [x] = x"
| "join sep (x # y # ys) = x @ sep @ join sep (y # ys)"

text \<open>The number that a decimal numeral stands for.\<close>

definition digits_value :: "str \<Rightarrow> nat" where
  "digits_value ds = foldl (\<lambda>a c. 10 * a + (c - 48)) 0 ds"

section \<open>Dates, times and durations\<close>

text \<open>
  \<open>datetime\<close> and \<open>timedelta\<close> of the standard library, with the fields the objects
  hold. The fields of a datetime are never negative.
\<close>

record datetime =
  year :: nat
  month :: nat
  day :: nat
  hour :: nat
  minute :: nat
  second :: nat
  microsecond :: nat

record timedelta =
  days :: int
  seconds :: int
  microseconds :: int

definition is_leap :: "nat \<Rightarrow> bool" where
  "is_leap y \<longleftrightarrow> y mod 4 = 0 \<and> (y mod 100 \<noteq> 0 \<or> y mod 400 = 0)"

definition days_before_year :: "nat \<Rightarrow> int" where
  "days_before_year yr = (let y = int yr - 1 in y * 365 + y div 4 - y div 100 + y div 400)"

definition DAYS_BEFORE_MONTH :: "int list" where
  "DAYS_BEFORE_MONTH = [-1, 0, 31, 59, 90, 120, 151, 181, 212, 243, 273, 304, 334]"

text \<open>A datetime holds a month from 1 to 12, so the table is read in range.\<close>

definition days_before_month :: "nat \<Rightarrow> nat \<Rightarrow> int" where
  "days_before_month y m = DAYS_BEFORE_MONTH ! m + (if m > 2 \<and> is_leap y then 1 else 0)"

definition ymd2ord :: "nat \<Rightarrow> nat \<Rightarrow> nat \<Rightarrow> int" where
  "ymd2ord y m d = days_before_year y + days_before_month y m + int d"

definition toordinal :: "datetime \<Rightarrow> int" where
  "toordinal t = ymd2ord (year t) (month t) (day t)"

text \<open>The constructor \<open>timedelta(days, seconds, microseconds)\<close> on integers normalises
  its arguments: microseconds into \<open>0..999999\<close>, seconds into \<open>0..86399\<close>.\<close>

definition mk_timedelta :: "int \<Rightarrow> int \<Rightarrow> int \<Rightarrow> timedelta" where
  "mk_timedelta d s us =
     (let s1 = s + us div 1000000;
          us' = us mod 1000000;
          d1 = d + s1 div 86400;
          s' = s1 mod 86400
      in \<lparr>days = d1, seconds = s', microseconds = us'\<rparr>)"

text \<open>\<open>end - start\<close> on two naive datetimes.\<close>

definition datetime_sub :: "datetime \<Rightarrow> datetime \<Rightarrow> timedelta" where
  "datetime_sub a b =
     (let days1 = toordinal a;
          days2 = toordinal b;
          secs1 = int (second a) + int (minute a) * 60 + int (hour a) * 3600;
          secs2 = int (second b) + int (minute b) * 60 + int (hour b) * 3600
      in mk_timedelta (days1 - days2) (secs1 - secs2)
           (int (microsecond a) - int (microsecond b)))"

text \<open>\<open>str(duration)\<close>.\<close>

definition str_timedelta :: "timedelta \<Rightarrow> str" where
  "str_timedelta td =
     (let mm = seconds td div 60;
          ss = seconds td mod 60;
          hh = mm div 60;
          mm' = mm mod 60;
          s = str_int hh @ py '':'' @ zpad 2 (nat mm') @ py '':'' @ zpad 2 (nat ss);
          s1 = (if days td \<noteq> 0
                then str_int (days td) @ py '' day''
                     @ (if \<bar>days td\<bar> \<noteq> 1 then py ''s'' else []) @ py '', '' @ s
                else s)
      in if microseconds td \<noteq> 0 then s1 @ py ''.'' @ zpad 6 (nat (microseconds td)) else s1)"

text \<open>
  The two \<open>strftime\<close> formats of the program, \<open>%Y-%m-%dT%H:%M:%SZ\<close> and
  \<open>%Y-%m-%d %H:%M:%S\<close>, for years from 1000 on (all that a running clock gives).
\<close>

definition strftime_iso :: "datetime \<Rightarrow> str" where
  "strftime_iso t =
     zpad 4 (year t) @ py ''-'' @ zpad 2 (month t) @ py ''-'' @ zpad 2 (day t) @ py ''T''
     @ zpad 2 (hour t) @ py '':'' @ zpad 2 (minute t) @ py '':'' @ zpad 2 (second t) @ py ''Z''"

definition strftime_plain :: "datetime \<Rightarrow> str" where
  "strftime_plain t =
     zpad 4 (year t) @ py ''-'' @ zpad 2 (month t) @ py ''-'' @ zpad 2 (day t) @ py '' ''
     @ zpad 2 (hour t) @ py '':'' @ zpad 2 (minute t) @ py '':'' @ zpad 2 (second t)"

text \<open>The position of a datetime and the length of a duration, in microseconds.\<close>

definition datetime_micros :: "datetime \<Rightarrow> int" where
  "datetime_micros t =
     ((toordinal t * 86400 + int (second t) + int (minute t) * 60 + int (hour t) * 3600)
        * 1000000) + int (microsecond t)"

definition timedelta_micros :: "timedelta \<Rightarrow> int" where
  "timedelta_micros td = (days td * 86400 + seconds td) * 1000000 + microseconds td"

section \<open>JSON\<close>

unbundle bit_operations_syntax

subsection \<open>Writing: \<open>json.dumps\<close>\<close>

text \<open>
  The program writes dictionaries whose values are strings or dictionaries. A dictionary
  keeps the order in which its keys were inserted, so it is a list of pairs.
  \<open>json.dumps\<close> runs with its defaults: items separated by a comma and a space, key
  and value by a colon and a space, and every character outside printable ASCII
  escaped; a code point above \<open>0xffff\<close> becomes a surrogate pair.
\<close>

datatype json = JString str | JObject "(str \<times> json) list"

definition hex_digit :: "nat \<Rightarrow> nat" where
  "hex_digit d = (if d < 10 then 48 + d else 87 + d)"

definition hex4 :: "nat \<Rightarrow> str" where
  "hex4 n = [hex_digit (n div 4096 mod 16), hex_digit (n div 256 mod 16),
             hex_digit (n div 16 mod 16), hex_digit (n mod 16)]"

definition replace :: "nat \<Rightarrow> str" where
  "replace c =
     (if c = 92 then [92, 92]
      else if c = 34 then [92, 34]
      else if c = 8 then [92, 98]
      else if c = 12 then [92, 102]
      else if c = 10 then [92, 110]
      else if c = 13 then [92, 114]
      else if c = 9 then [92, 116]
      else if c < 0x10000 then [92, 117] @ hex4 c
      else (let n = c - 0x10000;
                s1 = 0xd800 OR (drop_bit 10 n AND 0x3ff);
                s2 = 0xdc00 OR (n AND 0x3ff)
            in [92, 117] @ hex4 s1 @ [92, 117] @ hex4 s2))"

definition ESCAPE_ASCII :: "nat \<Rightarrow> bool" where
  "ESCAPE_ASCII c \<longleftrightarrow> c = 92 \<or> c = 34 \<or> \<not> (32 \<le> c \<and> c \<le> 126)"

definition encode_basestring_ascii :: "str \<Rightarrow> str" where
  "encode_basestring_ascii s =
     34 # concat (map (\<lambda>c. if ESCAPE_ASCII c then replace c else [c]) s) @ [34]"

fun dumps :: "json \<Rightarrow> str" and dumps_items :: "(str \<times> json) list \<Rightarrow> str" where
  "dumps (JString s) = encode_basestring_ascii s"
| "dumps (JObject kvs) = 123 # dumps_items kvs @ [125]"
| "dumps_items [] = []"
| "dumps_items ((k, v) # kvs) =
     encode_basestring_ascii k @ [58, 32] @ dumps v
     @ (if kvs = [] then [] else [44, 32] @ dumps_items kvs)"

subsection \<open>Reading: \<open>json.loads\<close>\<close>

text \<open>
  The reader follows the decoder of the standard library on the values above: strings
  with their escapes (a surrogate pair is joined into one code point), and objects,
  with white space skipped where the decoder skips it. Anything else is rejected.
\<close>

definition hexval :: "nat \<Rightarrow> nat option" where
  "hexval c =
     (if 48 \<le> c \<and> c \<le> 57 then Some (c - 48)
      else if 97 \<le> c \<and> c \<le> 102 then Some (c - 87)
      else if 65 \<le> c \<and> c \<le> 70 then Some (c - 55)
      else None)"

definition decode_uXXXX :: "str \<Rightarrow> nat option" where
  "decode_uXXXX s =
     (case s of
        a # b # c # d # _ \<Rightarrow>
          (case (hexval a, hexval b, hexval c, hexval d) of
             (Some x, Some y, Some z, Some w) \<Rightarrow> Some (((x * 16 + y) * 16 + z) * 16 + w)
           | _ \<Rightarrow> None)
      | _ \<Rightarrow> None)"

definition BACKSLASH :: "nat \<Rightarrow> nat option" where
  "BACKSLASH e =
     (if e = 34 then Some 34
      else if e = 92 then Some 92
      else if e = 47 then Some 47
      else if e = 98 then Some 8
      else if e = 102 then Some 12
      else if e = 110 then Some 10
      else if e = 114 then Some 13
      else if e = 116 then Some 9
      else None)"

definition emit :: "nat \<Rightarrow> (str \<times> str) option \<Rightarrow> (str \<times> str) option" where
  "emit c r = (case r of None \<Rightarrow> None | Some (s, rest) \<Rightarrow> Some (c # s, rest))"

definition scan_escape :: "str \<Rightarrow> (nat \<times> str) option" where
  "scan_escape s =
     (case s of
        [] \<Rightarrow> None
      | e # es \<Rightarrow>
          if e \<noteq> 117 then
            (case BACKSLASH e of None \<Rightarrow> None | Some ch \<Rightarrow> Some (ch, es))
          else
            (case decode_uXXXX es of
               None \<Rightarrow> None
             | Some uni \<Rightarrow>
                 if 0xd800 \<le> uni \<and> uni \<le> 0xdbff \<and> take 2 (drop 4 es) = [92, 117] then
                   (case decode_uXXXX (drop 6 es) of
                      None \<Rightarrow> Some (uni, drop 4 es)
                    | Some uni2 \<Rightarrow>
                        if 0xdc00 \<le> uni2 \<and> uni2 \<le> 0xdfff
                        then Some (0x10000 + (push_bit 10 (uni - 0xd800) OR (uni2 - 0xdc00)),
                                   drop 10 es)
                        else Some (uni, drop 4 es))
                 else Some (uni, drop 4 es)))"

function scanstring :: "str \<Rightarrow> (str \<times> str) option" where
  "scanstring [] = None"
| "scanstring (c # cs) =
     (if c = 34 then Some ([], cs)
      else if c = 92 then
        (case scan_escape cs of
           None \<Rightarrow> None
         | Some (ch, rest) \<Rightarrow> emit ch (scanstring rest))
      else if c < 32 then None
      else emit c (scanstring cs))"
  by pat_completeness auto

termination
proof -
  have len4: "4 \<le> length s" if "decode_uXXXX s = Some u" for s u
    using that by (auto simp: decode_uXXXX_def split: list.splits)
  have esc: "length rest < length s" if "scan_escape s = Some (ch, rest)" for s ch rest
    using that unfolding scan_escape_def
    by (cases s) (auto split: if_splits option.splits dest: len4)
  show ?thesis
    by (relation "measure length") (auto dest: esc)
qed

definition skip_ws :: "str \<Rightarrow> str" where
  "skip_ws s = dropWhile (\<lambda>c. c = 32 \<or> c = 9 \<or> c = 10 \<or> c = 13) s"

definition dict :: "(str \<times> json) list \<Rightarrow> (str \<times> json) list" where
  "dict pairs = foldl (\<lambda>d (k, v). AList.update k v d) [] pairs"

text \<open>
  \<open>scan_once\<close> reads one value and \<open>JSONObject\<close> the pairs of an object, from just
  after the quote that opens the first key. The decoder loops over the pairs; here each
  further pair is a recursive call, on what is left of the input. That what is left is
  shorter is written into the condition of the call, so that the recursion is seen to
  end; lemma \<open>JSONObject_unguarded\<close> below shows that the condition always holds.
\<close>

function scan_once :: "str \<Rightarrow> (json \<times> str) option"
  and JSONObject :: "str \<Rightarrow> ((str \<times> json) list \<times> str) option" where
  "scan_once s =
     (case s of
        [] \<Rightarrow> None
      | c # cs \<Rightarrow>
          if c = 34 then
            (case scanstring cs of
               None \<Rightarrow> None
             | Some (t, rest) \<Rightarrow> Some (JString t, rest))
          else if c = 123 then
            (case skip_ws cs of
               [] \<Rightarrow> None
             | d # ds \<Rightarrow>
                 if d = 125 then Some (JObject [], ds)
                 else if d = 34 then
                   (case JSONObject ds of
                      None \<Rightarrow> None
                    | Some (pairs, rest) \<Rightarrow> Some (JObject (dict pairs), rest))
                 else None)
          else None)"
| "JSONObject s =
     (case scanstring s of
        None \<Rightarrow> None
      | Some (key, r1) \<Rightarrow>
          (case skip_ws r1 of
             [] \<Rightarrow> None
           | c # r2 \<Rightarrow>
               if c \<noteq> 58 then None
               else
                 (case scan_once (skip_ws r2) of
                    None \<Rightarrow> None
                  | Some (v, r3) \<Rightarrow>
                      (case skip_ws r3 of
                         [] \<Rightarrow> None
                       | d # r4 \<Rightarrow>
                           if d = 125 then Some ([(key, v)], r4)
                           else if d = 44 then
                             (case skip_ws r4 of
                                [] \<Rightarrow> None
                              | q # r5 \<Rightarrow>
                                  if q = 34 \<and> length r5 < length s then
                                    (case JSONObject r5 of
                                       None \<Rightarrow> None
                                     | Some (pairs, rest) \<Rightarrow> Some ((key, v) # pairs, rest))
                                  else None)
                           else None))))"
  by pat_completeness auto

termination
proof -
  have len4: "4 \<le> length s" if "decode_uXXXX s = Some u" for s u
    using that by (auto simp: decode_uXXXX_def split: list.splits)
  have esc: "length rest < length s" if "scan_escape s = Some (ch, rest)" for s ch rest
    using that unfolding scan_escape_def
    by (cases s) (auto split: if_splits option.splits dest: len4)
  have str: "length rest < length s" if "scanstring s = Some (t, rest)" for s t rest
    using that
  proof (induction s arbitrary: t rule: scanstring.induct)
    case 1
    then show ?case by simp
  next
    case (2 c cs)
    show ?case
    proof (cases "c = 34")
      case True
      with "2.prems" show ?thesis by simp
    next
      case n34: False
      show ?thesis
      proof (cases "c = 92")
        case True
        with n34 "2.prems" obtain ch r t' where
          e: "scan_escape cs = Some (ch, r)" and s: "scanstring r = Some (t', rest)"
          by (auto simp: emit_def split: option.splits)
        from "2.IH"(1)[OF n34 True e[THEN sym, THEN sym] refl s]
        have "length rest < length r" .
        with esc[OF e] show ?thesis by simp
      next
        case False
        with n34 "2.prems" obtain t' where c: "\<not> c < 32" and s: "scanstring cs = Some (t', rest)"
          by (auto simp: emit_def split: option.splits if_splits)
        from "2.IH"(2)[OF n34 False c s] show ?thesis by simp
      qed
    qed
  qed
  have ws: "length (skip_ws s) \<le> length s" for s
    by (simp add: skip_ws_def length_dropWhile_le)
  show ?thesis
  proof (relation "measure (\<lambda>x. case x of Inl s \<Rightarrow> length s | Inr s \<Rightarrow> length s)",
      simp_all, goal_cases)
    case (1 s c cs d ds)
    then show ?case using ws[of cs] by simp
  next
    case (2 s kr key r1 c r2)
    then have "length r1 < length s" "length r2 < length r1"
      using str[of s key r1] ws[of r1] by simp_all
    then show ?case using ws[of r2] by simp
  qed
qed

declare scan_once.simps [simp del] JSONObject.simps [simp del]

definition loads :: "str \<Rightarrow> json option" where
  "loads s =
     (case scan_once (skip_ws s) of
        None \<Rightarrow> None
      | Some (v, rest) \<Rightarrow> if skip_ws rest = [] then Some v else None)"

text \<open>
  Text that the program can hold: code points below \<open>0x110000\<close>, none of them a high
  surrogate. Command-line arguments are decoded with \<open>surrogateescape\<close>, which yields
  low surrogates only, and the output of the command is decoded strictly, which yields
  none.
\<close>

definition plain_char :: "nat \<Rightarrow> bool" where
  "plain_char c \<longleftrightarrow> c < 0x110000 \<and> \<not> (0xd800 \<le> c \<and> c \<le> 0xdbff)"

definition plain_text :: "str \<Rightarrow> bool" where
  "plain_text s = list_all plain_char s"

fun wf_json :: "json \<Rightarrow> bool" and wf_items :: "(str \<times> json) list \<Rightarrow> bool" where
  "wf_json (JString s) = plain_text s"
| "wf_json (JObject kvs) = (distinct (map fst kvs) \<and> wf_items kvs)"
| "wf_items [] = True"
| "wf_items ((k, v) # kvs) = (plain_text k \<and> wf_json v \<and> wf_items kvs)"

section \<open>The program\<close>

subsection \<open>What the program is given, and what it acts on\<close>

text \<open>The result of \<open>parser.parse_args()\<close>; \<open>o_flag\<close> is the option \<open>--o\<close>.\<close>

record args =
  source :: str
  destination :: str
  sync_options :: "str list"
  o_flag :: bool
  lock :: str
  log :: str

datatype exception = OSError | UnicodeDecodeError | UnicodeEncodeError | NameError

text \<open>
  What \<open>subprocess.run\<close> does with a command: the command runs and exits with a code,
  its standard output and its standard error, or the call raises (the executable is
  missing, the output cannot be decoded).
\<close>

datatype run_result = Exited int str str | Raised exception

text \<open>
  A file is what a path leads to, once links and relative parts are resolved; several
  paths can name one file. Files are told apart by a number.
\<close>

type_synonym inode = nat

text \<open>
  The world the program acts on. The wall clock is part of it: \<open>datetime.now()\<close> reads
  it, and the two calls that wait (taking the lock, running the command) move it.
  \<open>files\<close> gives the bytes of each file that exists. \<open>writes\<close> lists the calls of
  \<open>f.write\<close> (path and data), \<open>spawned\<close> the commands given to \<open>subprocess.run\<close>,
  each with the clock at that moment, and \<open>stdout\<close> and \<open>stderr\<close> the lines the program
  has printed (the traceback that the interpreter prints for an exception nobody
  catches is not among them).
\<close>

record world =
  clock :: datetime
  files :: "inode \<Rightarrow> str option"
  writes :: "(str \<times> str) list"
  spawned :: "(datetime \<times> str list) list"
  stdout :: "str list"
  stderr :: "str list"

text \<open>
  What the operating system answers during one invocation:
  \<^item> \<open>time_us\<close> and \<open>pid\<close>: \<open>int(time.time()*1e6)\<close> and \<open>os.getpid()\<close>;
  \<^item> \<open>lock_returns_at\<close> and \<open>run_returns_at\<close>: the wall clock when the attempt to lock
    returns and when the command has exited;
  \<^item> \<open>utcnow\<close>: \<open>datetime.utcnow()\<close> when the log entry is built;
  \<^item> \<open>resolve\<close>: the file that a path names (the one that \<open>open\<close> creates, when
    there is none yet);
  \<^item> \<open>openable\<close>: whether \<open>open\<close> for writing succeeds on a path;
  \<^item> \<open>held\<close>: whether another process holds the lock on the file at a path;
  \<^item> \<open>short_write\<close>: what becomes of data written to the file opened at a path:
    \<open>None\<close> when all of it is written and the file closed, \<open>Some n\<close> when writing,
    flushing or closing raises \<open>OSError\<close> after \<open>n\<close> bytes have reached the file (a full
    disk, \<open>/dev/full\<close>);
  \<^item> \<open>print_stdout\<close>: what \<open>print\<close> does with a text on standard output: \<open>None\<close>
    when it is printed, \<open>Some x\<close> when \<open>print\<close> raises \<open>x\<close> (a character that the
    stream cannot encode, a stream that cannot be written);
  \<^item> \<open>run\<close>: what each command does.
\<close>

record env =
  time_us :: int
  pid :: nat
  lock_returns_at :: datetime
  run_returns_at :: datetime
  utcnow :: datetime
  resolve :: "str \<Rightarrow> inode"
  openable :: "str \<Rightarrow> bool"
  held :: "str \<Rightarrow> bool"
  short_write :: "str \<Rightarrow> str \<Rightarrow> nat option"
  print_stdout :: "str \<Rightarrow> exception option"
  run :: "str list \<Rightarrow> run_result"

definition content :: "(inode \<Rightarrow> str option) \<Rightarrow> inode \<Rightarrow> str" where
  "content fs f = (case fs f of None \<Rightarrow> [] | Some c \<Rightarrow> c)"

text \<open>The status with which the interpreter ends: 0 when \<open>main\<close> returns, 1 when an
  exception leaves it.\<close>

definition exit_status :: "exception option \<Rightarrow> int" where
  "exit_status x = (case x of None \<Rightarrow> 0 | Some _ \<Rightarrow> 1)"

subsection \<open>\<open>log_message\<close>\<close>

definition log_entry :: "env \<Rightarrow> str \<Rightarrow> str \<Rightarrow> str \<Rightarrow> json \<Rightarrow> json" where
  "log_entry e unique_id status message extra_info =
     JObject
       [(py ''timestamp'', JString (strftime_iso (utcnow e))),
        (py ''unique_id'', JString unique_id),
        (py ''status'', JString status),
        (py ''message'', JString message),
        (py ''extra_info'', extra_info)]"

text \<open>The data of the one \<open>f.write\<close>: the entry and a newline.\<close>

definition log_line :: "env \<Rightarrow> str \<Rightarrow> str \<Rightarrow> str \<Rightarrow> json \<Rightarrow> str" where
  "log_line e unique_id status message extra_info =
     dumps (log_entry e unique_id status message extra_info) @ [10]"

text \<open>
  \<open>open(log_file, "a")\<close> raises when the file cannot be opened, and nothing is done
  then. Once the file is open, \<open>f.write\<close> is called once; the data go to the end of
  the file, all of them or, when the write, the flush or the close raises, a first
  part of them. Nothing catches either \<open>OSError\<close>. The result is the exception, if
  any, and the world as it then is.
\<close>

definition log_message ::
  "env \<Rightarrow> str \<Rightarrow> str \<Rightarrow> str \<Rightarrow> str \<Rightarrow> json \<Rightarrow> world \<Rightarrow> exception option \<times> world" where
  "log_message e log_file unique_id status message extra_info w =
     (let line = log_line e unique_id status message extra_info;
          f = resolve e log_file
      in if \<not> openable e log_file then (Some OSError, w)
         else
           (case short_write e log_file line of
              None \<Rightarrow>
                (None, w\<lparr>files := (files w)(f \<mapsto> content (files w) f @ line),
                          writes := writes w @ [(log_file, line)]\<rparr>)
            | Some n \<Rightarrow>
                (Some OSError,
                 w\<lparr>files := (files w)(f \<mapsto> content (files w) f @ take n line),
                   writes := writes w @ [(log_file, line)]\<rparr>)))"

subsection \<open>\<open>main\<close>\<close>

text \<open>Line 35, from the two readings \<open>int(time.time()*1e6)\<close> and \<open>os.getpid()\<close>.\<close>

definition unique_id :: "int \<Rightarrow> nat \<Rightarrow> str" where
  "unique_id t p = str_int t @ py ''-'' @ str_nat p"

text \<open>
  Lines 40 to 45: \<open>open(args.lock, 'w')\<close> creates or empties the file that the path
  names, then \<open>flock\<close> with \<open>LOCK_EX | LOCK_NB\<close> fails at once when another process
  holds the lock. Either failure is an \<open>IOError\<close>, which the program catches. The
  result says whether the lock was taken.
\<close>

definition acquire_lock :: "env \<Rightarrow> str \<Rightarrow> world \<Rightarrow> bool \<times> world" where
  "acquire_lock e p w =
     (if \<not> openable e p then (False, w\<lparr>clock := lock_returns_at e\<rparr>)
      else (\<not> held e p,
            w\<lparr>clock := lock_returns_at e, files := (files w)(resolve e p \<mapsto> [])\<rparr>))"

definition cmd :: "args \<Rightarrow> str list" where
  "cmd a = [py ''aws'', py ''s3'', py ''sync'', source a, destination a] @ sync_options a"

definition extra_info :: "args \<Rightarrow> str \<Rightarrow> datetime \<Rightarrow> datetime \<Rightarrow> json" where
  "extra_info a sync_output start_time end_time =
     JObject
       [(py ''source'', JString (source a)),
        (py ''destination'', JString (destination a)),
        (py ''options'', JString (join (py '' '') (sync_options a))),
        (py ''sync_output'', JString sync_output),
        (py ''start_time'', JString (strftime_plain start_time)),
        (py ''end_time'', JString (strftime_plain end_time)),
        (py ''duration'', JString (str_timedelta (datetime_sub end_time start_time)))]"

text \<open>\<open>print(text)\<close> on standard output: the text is printed, or \<open>print\<close> raises.\<close>

definition print_out :: "env \<Rightarrow> str \<Rightarrow> world \<Rightarrow> exception option \<times> world" where
  "print_out e text w =
     (case print_stdout e text of
        None \<Rightarrow> (None, w\<lparr>stdout := stdout w @ [text]\<rparr>)
      | Some x \<Rightarrow> (Some x, w))"

text \<open>
  \<open>main\<close>, after the arguments are parsed. An exception that nothing catches ends
  \<open>main\<close> where it is raised. The last line of the source prints to \<open>sys.stderr\<close>, and
  the module \<open>sys\<close> is never imported: looking the name up raises \<open>NameError\<close> before
  \<open>print\<close> is called.
\<close>

definition main :: "args \<Rightarrow> env \<Rightarrow> world \<Rightarrow> exception option \<times> world" where
  "main a e w =
     (let uid = unique_id (time_us e) (pid e);
          start_time = clock w;
          (acquired, w1) = acquire_lock e (lock a) w
      in if \<not> acquired
         then print_out e (py ''Error: Could not acquire lock'') w1
         else
           let w2 = w1\<lparr>spawned := spawned w1 @ [(clock w1, cmd a)], clock := run_returns_at e\<rparr>
           in case run e (cmd a) of
                Raised x \<Rightarrow> (Some x, w2)
              | Exited rc out err \<Rightarrow>
                  let sync_output = (if rc = 0 then out else out @ [10] @ err);
                      return_code = rc;
                      end_time = clock w2;
                      info = extra_info a sync_output start_time end_time
                  in if return_code = 0 then
                       (case log_message e (log a) uid (py ''info'') (py ''Sync successful.'') info w2 of
                          (Some x, w3) \<Rightarrow> (Some x, w3)
                        | (None, w3) \<Rightarrow>
                            if o_flag a
                            then print_out e
                                   (py ''Well done. Source directory: '' @ source a
                                    @ py ''. Details: '' @ log a) w3
                            else (None, w3))
                     else
                       let status = py ''error'';
                           message =
                             (if return_code = 1
                              then py ''Sync failed due to a general error, exit code 1''
                              else if return_code = 2
                              then py ''Sync failed due to a permission error, exit code 2''
                              else py ''Sync failed with exit code '' @ str_int return_code)
                       in (case log_message e (log a) uid status message info w2 of
                             (Some x, w3) \<Rightarrow> (Some x, w3)
                           | (None, w3) \<Rightarrow> (Some NameError, w3)))"

section \<open>Example runs\<close>

text \<open>
  An invocation on the first of November 2026, shortly after one o'clock at night:
  the lock is free, every file can be opened and written, standard output takes what
  is printed, and the command exits with the code given. The lock file is file 1 and
  the log file is file 2, which a second path names as well.
\<close>

definition at :: "nat \<Rightarrow> nat \<Rightarrow> nat \<Rightarrow> datetime" where
  "at h m s = \<lparr>year = 2026, month = 11, day = 1, hour = h, minute = m, second = s,
              microsecond = 0\<rparr>"

definition demo_args :: args where
  "demo_args =
     \<lparr>source = py ''/data'', destination = py ''s3://bucket/data'',
      sync_options = [py ''--delete'', py ''--quiet''], o_flag = True,
      lock = py ''/var/lock/aws_s3_sync.lock'', log = py ''/var/log/aws_s3_sync.log''\<rparr>"

definition demo_resolve :: "str \<Rightarrow> inode" where
  "demo_resolve p =
     (if p = py ''/var/lock/aws_s3_sync.lock'' then 1
      else if p = py ''/var/log/aws_s3_sync.log'' \<or> p = py ''/var/log/./aws_s3_sync.log''
      then 2
      else 0)"

definition demo_env :: "int \<Rightarrow> env" where
  "demo_env rc =
     \<lparr>time_us = 1793523600123456, pid = 4242,
      lock_returns_at = at 1 0 1, run_returns_at = at 1 0 3, utcnow = at 9 0 3,
      resolve = demo_resolve,
      openable = (\<lambda>p. True), held = (\<lambda>p. False),
      short_write = (\<lambda>p data. None), print_stdout = (\<lambda>text. None),
      run = (\<lambda>c. Exited rc (py ''upload: a.txt'') (py ''fatal error''))\<rparr>"

definition demo_world :: world where
  "demo_world =
     \<lparr>clock = at 1 0 0,
      files = [2 \<mapsto> py ''earlier entry'' @ [10]],
      writes = [], spawned = [], stdout = [], stderr = []\<rparr>"

section \<open>Decimal numbers and the invocation id\<close>

lemma py_Cons: "py (c # cs) = of_char c # py cs" and py_Nil: "py [] = []"
  by (simp_all add: py_def)

lemma str_nat_digits: "set (str_nat n) \<subseteq> {48..57}"
proof (induction n rule: str_nat.induct)
  case (1 n)
  show ?case
  proof (cases "n < 10")
    case True
    then show ?thesis by (subst str_nat.simps) simp
  next
    case False
    have "n mod 10 < 10" by simp
    then have "48 + n mod 10 \<in> {48..57}" by simp
    with 1[OF False] False show ?thesis by (subst str_nat.simps) simp
  qed
qed

lemma str_nat_nonempty: "str_nat n \<noteq> []"
  by (subst str_nat.simps) simp

lemma digits_value_str_nat: "digits_value (str_nat n) = n"
proof (induction n rule: str_nat.induct)
  case (1 n)
  show ?case
  proof (cases "n < 10")
    case True
    then show ?thesis by (subst str_nat.simps) (simp add: digits_value_def)
  next
    case False
    with 1[OF False] show ?thesis
      by (subst str_nat.simps) (simp add: digits_value_def)
  qed
qed

lemma str_nat_inj: "str_nat m = str_nat n \<Longrightarrow> m = n"
  by (metis digits_value_str_nat)

lemma str_nat_no_minus: "45 \<notin> set (str_nat n)"
  using str_nat_digits[of n] by auto

lemma str_nat_hd: "hd (str_nat n) \<noteq> 45"
  using str_nat_no_minus[of n] str_nat_nonempty[of n] by (cases "str_nat n") auto

lemma str_int_inj: "str_int i = str_int j \<Longrightarrow> i = j"
proof -
  assume eq: "str_int i = str_int j"
  consider (nn) "i < 0" "j < 0" | (pp) "\<not> i < 0" "\<not> j < 0"
    | (np) "i < 0" "\<not> j < 0" | (pn) "\<not> i < 0" "j < 0" by blast
  then show "i = j"
  proof cases
    case nn
    with eq have "nat (- i) = nat (- j)" by (simp add: str_int_def str_nat_inj)
    with nn show ?thesis by simp
  next
    case pp
    with eq have "nat i = nat j" by (simp add: str_int_def str_nat_inj)
    with pp show ?thesis by simp
  next
    case np
    with eq have "hd (str_nat (nat j)) = 45" by (simp add: str_int_def) (metis list.sel(1))
    with str_nat_hd show ?thesis by blast
  next
    case pn
    with eq have "hd (str_nat (nat i)) = 45" by (simp add: str_int_def)
    with str_nat_hd show ?thesis by blast
  qed
qed

lemma split_at_last:
  assumes "xs @ c # ds = xs' @ c # ds'" "c \<notin> set ds" "c \<notin> set ds'"
  shows "xs = xs' \<and> ds = ds'"
proof -
  have "takeWhile (\<lambda>x. x \<noteq> c) (rev (xs @ c # ds)) = rev ds"
    using assms(2) by (auto simp: takeWhile_tail)
  moreover have "takeWhile (\<lambda>x. x \<noteq> c) (rev (xs' @ c # ds')) = rev ds'"
    using assms(3) by (auto simp: takeWhile_tail)
  ultimately have "ds = ds'" using assms(1) by simp
  with assms(1) show ?thesis by simp
qed

lemma unique_id_inj:
  "unique_id t p = unique_id t' p' \<Longrightarrow> t = t' \<and> p = p'"
proof -
  assume "unique_id t p = unique_id t' p'"
  then have "str_int t @ 45 # str_nat p = str_int t' @ 45 # str_nat p'"
    by (simp add: unique_id_def py_def)
  from split_at_last[OF this str_nat_no_minus str_nat_no_minus]
  show ?thesis by (auto dest: str_int_inj str_nat_inj)
qed

section \<open>Durations\<close>

lemma timedelta_micros_mk:
  "timedelta_micros (mk_timedelta d s us) = (d * 86400 + s) * 1000000 + us"
proof -
  define s1 where "s1 = s + us div 1000000"
  have a: "s1 div 86400 * 86400 + s1 mod 86400 = s1" by simp
  have b: "us div 1000000 * 1000000 + us mod 1000000 = us" by simp
  have "timedelta_micros (mk_timedelta d s us)
          = ((d + s1 div 86400) * 86400 + s1 mod 86400) * 1000000 + us mod 1000000"
    by (simp add: timedelta_micros_def mk_timedelta_def Let_def s1_def)
  also have "\<dots> = (d * 86400 + (s1 div 86400 * 86400 + s1 mod 86400)) * 1000000
                    + us mod 1000000"
    by (simp only: algebra_simps)
  also have "\<dots> = (d * 86400 + s1) * 1000000 + us mod 1000000" by (simp only: a)
  also have "\<dots> = (d * 86400 + s) * 1000000 + (us div 1000000 * 1000000 + us mod 1000000)"
    by (simp only: s1_def algebra_simps)
  also have "\<dots> = (d * 86400 + s) * 1000000 + us" by (simp only: b)
  finally show ?thesis .
qed

lemma timedelta_micros_sub:
  "timedelta_micros (datetime_sub a b) = datetime_micros a - datetime_micros b"
  by (simp add: datetime_sub_def Let_def timedelta_micros_mk datetime_micros_def algebra_simps)

lemma at_plain:
  "strftime_plain (at 1 0 0) = py ''2026-11-01 01:00:00''"
  "strftime_plain (at 1 0 1) = py ''2026-11-01 01:00:01''"
  "strftime_plain (at 1 0 3) = py ''2026-11-01 01:00:03''"
  "strftime_plain (at 1 59 59) = py ''2026-11-01 01:59:59''"
  by (simp_all add: strftime_plain_def at_def zpad_def str_nat.simps py_def)

lemma at_durations:
  "str_timedelta (datetime_sub (at 1 0 3) (at 1 0 0)) = py ''0:00:03''"
  "str_timedelta (datetime_sub (at 1 0 3) (at 1 0 1)) = py ''0:00:02''"
  "str_timedelta (datetime_sub (at 1 0 3) (at 1 59 59)) = py ''-1 day, 23:00:04''"
  by (simp_all add: str_timedelta_def datetime_sub_def mk_timedelta_def toordinal_def at_def
      Let_def zpad_def str_int_def str_nat.simps py_def)

lemma at_iso: "strftime_iso (at 9 0 3) = py ''2026-11-01T09:00:03Z''"
  by (simp add: strftime_iso_def at_def zpad_def str_nat.simps py_def)

section \<open>What is written is printable ASCII\<close>

lemma hex_digit_range: "d < 16 \<Longrightarrow> 32 \<le> hex_digit d \<and> hex_digit d \<le> 126"
  by (simp add: hex_digit_def)

lemma hex4_range: "x \<in> set (hex4 n) \<Longrightarrow> 32 \<le> x \<and> x \<le> 126"
proof -
  assume "x \<in> set (hex4 n)"
  then have "\<exists>d<16. x = hex_digit d"
    unfolding hex4_def
    by (simp only: set_simps insert_iff empty_iff) (metis mod_less_divisor zero_less_numeral)
  then show ?thesis using hex_digit_range by auto
qed

lemma replace_range: "x \<in> set (replace c) \<Longrightarrow> 32 \<le> x \<and> x \<le> 126"
  by (auto simp: replace_def Let_def split: if_splits dest: hex4_range)

lemma encode_range: "x \<in> set (encode_basestring_ascii s) \<Longrightarrow> 32 \<le> x \<and> x \<le> 126"
  by (auto simp: encode_basestring_ascii_def ESCAPE_ASCII_def split: if_splits
      dest: replace_range)

lemma dumps_range:
  "\<forall>x \<in> set (dumps v). 32 \<le> x \<and> x \<le> 126"
  "\<forall>x \<in> set (dumps_items kvs). 32 \<le> x \<and> x \<le> 126"
proof (induction v and kvs rule: dumps_dumps_items.induct)
  case (1 s)
  then show ?case using encode_range by simp
next
  case (2 kvs)
  then show ?case by simp
next
  case 3
  then show ?case by simp
next
  case (4 k v kvs)
  then show ?case using encode_range[of _ k] by (cases "kvs = []") auto
qed

lemma dumps_no_newline: "10 \<notin> set (dumps v)"
  using dumps_range(1)[of v] by auto

section \<open>Reading back what was written\<close>

lemma or_low: "b < 2 ^ n \<Longrightarrow> push_bit n a OR b = push_bit n a + (b::nat)"
proof -
  assume "b < 2 ^ n"
  then have b: "take_bit n b = b" by (simp add: take_bit_nat_eq_self)
  have "push_bit n a AND take_bit n b = 0"
    by (rule bit_eqI) (auto simp: bit_simps)
  then have "push_bit n a + b = push_bit n a OR b"
    using b disjunctive_add_eq_or[of "push_bit n a" b] by simp
  then show ?thesis by simp
qed

lemma and_3ff: "(n::nat) AND 0x3ff = n mod 1024"
proof -
  have "(0x3ff::nat) = mask 10" by (simp add: mask_eq_exp_minus_1)
  then have "n AND 0x3ff = take_bit 10 n" by (simp only: take_bit_eq_mask)
  then show ?thesis by (simp add: take_bit_eq_mod)
qed

lemma or_d800: "x < 1024 \<Longrightarrow> (0xd800::nat) OR x = 0xd800 + x"
  using or_low[of x 10 54] by (simp add: push_bit_eq_mult)

lemma or_dc00: "x < 1024 \<Longrightarrow> (0xdc00::nat) OR x = 0xdc00 + x"
  using or_low[of x 10 55] by (simp add: push_bit_eq_mult)

lemma hexval_hex_digit: "d < 16 \<Longrightarrow> hexval (hex_digit d) = Some d"
  by (simp add: hexval_def hex_digit_def)

lemma hex_recompose:
  "((n div 4096 * 16 + n div 256 mod 16) * 16 + n div 16 mod 16) * 16 + n mod 16 = (n::nat)"
proof -
  define a where "a = n div 16"
  define b where "b = a div 16"
  have b: "n div 256 = b" unfolding a_def b_def by (simp add: div_mult2_eq[symmetric])
  have c: "n div 4096 = b div 16" unfolding a_def b_def by (simp add: div_mult2_eq[symmetric])
  have "b div 16 * 16 + b mod 16 = b" by simp
  moreover have "b * 16 + a mod 16 = a" unfolding b_def by simp
  moreover have "a * 16 + n mod 16 = n" unfolding a_def by simp
  ultimately show ?thesis unfolding b c a_def[symmetric] by simp
qed

lemma decode_hex4: "n < 65536 \<Longrightarrow> decode_uXXXX (hex4 n @ rest) = Some n"
proof -
  assume n: "n < 65536"
  have d: "n div 4096 mod 16 = n div 4096" "n div 4096 < 16" using n by simp_all
  have h: "hexval (hex_digit (n div 4096 mod 16)) = Some (n div 4096)"
    "hexval (hex_digit (n div 256 mod 16)) = Some (n div 256 mod 16)"
    "hexval (hex_digit (n div 16 mod 16)) = Some (n div 16 mod 16)"
    "hexval (hex_digit (n mod 16)) = Some (n mod 16)"
    using d by (simp_all add: hexval_hex_digit)
  have "decode_uXXXX (hex4 n @ rest) =
          Some (((n div 4096 * 16 + n div 256 mod 16) * 16 + n div 16 mod 16) * 16 + n mod 16)"
    unfolding decode_uXXXX_def hex4_def
    by (simp only: append_Cons append_Nil list.case h option.case prod.case)
  then show ?thesis by (simp only: hex_recompose)
qed

lemma length_hex4: "length (hex4 n) = 4"
  by (simp add: hex4_def)

lemma replace_special:
  "c \<in> {92, 34, 8, 12, 10, 13, 9} \<Longrightarrow>
     \<exists>r. replace c = 92 # r \<and> scan_escape (r @ rest) = Some (c, rest)"
  by (auto simp: replace_def scan_escape_def BACKSLASH_def)

lemma replace_bmp:
  assumes "c \<notin> {92, 34, 8, 12, 10, 13, 9}" "c < 0x10000" "\<not> (0xd800 \<le> c \<and> c \<le> 0xdbff)"
  shows "\<exists>r. replace c = 92 # r \<and> scan_escape (r @ rest) = Some (c, rest)"
proof -
  have r: "replace c = 92 # 117 # hex4 c" using assms by (simp add: replace_def)
  have "scan_escape ((117 # hex4 c) @ rest) = Some (c, rest)"
    using assms(2,3) by (auto simp: scan_escape_def decode_hex4 length_hex4)
  with r show ?thesis by simp
qed

lemma replace_astral:
  assumes "0x10000 \<le> c" "c < 0x110000"
  shows "\<exists>r. replace c = 92 # r \<and> scan_escape (r @ rest) = Some (c, rest)"
proof -
  define n where "n = c - 0x10000"
  have n: "n < 0x100000" "c = 0x10000 + n" using assms by (auto simp: n_def)
  define s1 where "s1 = 0xd800 + n div 1024"
  define s2 where "s2 = 0xdc00 + n mod 1024"
  have "n div 1024 < 1024" using n(1) by simp
  then have e1: "0xd800 OR (drop_bit 10 n AND 0x3ff) = s1"
    by (simp add: and_3ff drop_bit_eq_div or_d800 s1_def)
  have e2: "0xdc00 OR (n AND 0x3ff) = s2"
    by (simp add: and_3ff or_dc00 s2_def)
  have "\<not> c < 0x10000" "c \<notin> {92, 34, 8, 12, 10, 13, 9}" using assms(1) by auto
  then have r: "replace c = 92 # 117 # hex4 s1 @ [92, 117] @ hex4 s2"
    using e1 e2 by (simp add: replace_def n_def[symmetric] Let_def)
  have b1: "0xd800 \<le> s1" "s1 \<le> 0xdbff" "s1 < 65536" using n(1) by (auto simp: s1_def)
  have b2: "0xdc00 \<le> s2" "s2 \<le> 0xdfff" "s2 < 65536" by (auto simp: s2_def)
  have "push_bit 10 (n div 1024) OR (n mod 1024) = n"
    using or_low[of "n mod 1024" 10 "n div 1024"] by (simp add: push_bit_eq_mult)
  then have comb: "0x10000 + (push_bit 10 (s1 - 0xd800) OR (s2 - 0xdc00)) = c"
    using n(2) by (simp add: s1_def s2_def)
  have d1: "decode_uXXXX (hex4 s1 @ [92, 117] @ hex4 s2 @ rest) = Some s1"
    using decode_hex4[OF b1(3)] by simp
  have "drop 6 (hex4 s1 @ [92, 117] @ hex4 s2 @ rest) = hex4 s2 @ rest"
    by (simp add: length_hex4)
  then have d2: "decode_uXXXX (drop 6 (hex4 s1 @ [92, 117] @ hex4 s2 @ rest)) = Some s2"
    using decode_hex4[OF b2(3)] by simp
  have t: "take 2 (drop 4 (hex4 s1 @ [92, 117] @ hex4 s2 @ rest)) = [92, 117]"
    by (simp add: length_hex4)
  have dr: "drop 10 (hex4 s1 @ [92, 117] @ hex4 s2 @ rest) = rest"
    by (simp add: length_hex4)
  have "scan_escape (117 # hex4 s1 @ [92, 117] @ hex4 s2 @ rest) = Some (c, rest)"
    unfolding scan_escape_def using b1(1,2) b2(1,2) comb
    by (simp only: list.case d1 d2 t dr option.case if_True if_False simp_thms refl)
  with r show ?thesis by simp
qed

lemma replace_scan:
  assumes "plain_char c"
  shows "\<exists>r. replace c = 92 # r \<and> scan_escape (r @ rest) = Some (c, rest)"
proof -
  consider (sp) "c \<in> {92, 34, 8, 12, 10, 13, 9}"
    | (bmp) "c \<notin> {92, 34, 8, 12, 10, 13, 9}" "c < 0x10000"
    | (astral) "c \<ge> 0x10000" by fastforce
  then show ?thesis
  proof cases
    case sp
    then show ?thesis by (rule replace_special)
  next
    case bmp
    then show ?thesis using assms by (intro replace_bmp) (auto simp: plain_char_def)
  next
    case astral
    then show ?thesis using assms by (intro replace_astral) (auto simp: plain_char_def)
  qed
qed

lemma scanstring_body:
  "plain_text s \<Longrightarrow>
   scanstring (concat (map (\<lambda>c. if ESCAPE_ASCII c then replace c else [c]) s) @ 34 # rest)
     = Some (s, rest)"
proof (induction s)
  case Nil
  then show ?case by simp
next
  case (Cons c s)
  then have pc: "plain_char c" and ps: "plain_text s" by (simp_all add: plain_text_def)
  let ?X = "concat (map (\<lambda>c. if ESCAPE_ASCII c then replace c else [c]) s) @ 34 # rest"
  have ih: "scanstring ?X = Some (s, rest)" using Cons.IH ps by simp
  show ?case
  proof (cases "ESCAPE_ASCII c")
    case True
    obtain r where r: "replace c = 92 # r" "scan_escape (r @ ?X) = Some (c, ?X)"
      using replace_scan[OF pc, of ?X] by blast
    then show ?thesis using True ih by (simp add: emit_def)
  next
    case False
    then have "c \<noteq> 34" "c \<noteq> 92" "\<not> c < 32" by (auto simp: ESCAPE_ASCII_def)
    then show ?thesis using False ih by (simp add: emit_def)
  qed
qed

lemma scanstring_encode:
  "plain_text s \<Longrightarrow> \<exists>b. encode_basestring_ascii s = 34 # b \<and> (\<forall>rest. scanstring (b @ rest) = Some (s, rest))"
  by (simp add: encode_basestring_ascii_def scanstring_body)

lemma update_fresh: "k \<notin> fst ` set d \<Longrightarrow> AList.update k v d = d @ [(k, v)]"
  by (induction d) auto

lemma foldl_update_distinct:
  "distinct (map fst (d @ ps)) \<Longrightarrow>
   foldl (\<lambda>d (k, v). AList.update k v d) d ps = d @ ps"
proof (induction ps arbitrary: d)
  case Nil
  then show ?case by simp
next
  case (Cons p ps)
  obtain k v where p: "p = (k, v)" by (cases p)
  have "k \<notin> fst ` set d" using Cons.prems p by auto
  then have u: "AList.update k v d = d @ [(k, v)]" by (rule update_fresh)
  have "distinct (map fst ((d @ [(k, v)]) @ ps))" using Cons.prems p by simp
  from Cons.IH[OF this] show ?case using u p by simp
qed

lemma dict_distinct: "distinct (map fst ps) \<Longrightarrow> dict ps = ps"
  using foldl_update_distinct[of "[]" ps] by (simp add: dict_def)

lemma skip_ws_nonws [simp]:
  "c \<noteq> 32 \<Longrightarrow> c \<noteq> 9 \<Longrightarrow> c \<noteq> 10 \<Longrightarrow> c \<noteq> 13 \<Longrightarrow> skip_ws (c # s) = c # s"
  by (simp add: skip_ws_def)

lemma skip_ws_space [simp]: "skip_ws (32 # s) = skip_ws s"
  by (simp add: skip_ws_def)

lemma skip_ws_newline [simp]: "skip_ws (10 # s) = skip_ws s"
  by (simp add: skip_ws_def)

lemma skip_ws_Nil [simp]: "skip_ws [] = []"
  by (simp add: skip_ws_def)

lemma dumps_head: "\<exists>c b. dumps v = c # b \<and> (c = 34 \<or> c = 123)"
  by (cases v) (simp_all add: encode_basestring_ascii_def)

lemma skip_ws_dumps [simp]: "skip_ws (dumps v @ rest) = dumps v @ rest"
  using dumps_head[of v] by auto

lemma scan_roundtrip:
  "(wf_json v \<longrightarrow> (\<forall>rest. scan_once (dumps v @ rest) = Some (v, rest)))"
  "(wf_items kvs \<longrightarrow> kvs \<noteq> [] \<longrightarrow>
      (\<exists>b. dumps_items kvs = 34 # b \<and> (\<forall>rest. JSONObject (b @ 125 # rest) = Some (kvs, rest))))"
proof (induction v and kvs rule: dumps_dumps_items.induct)
  case (1 s)
  show ?case
  proof (intro impI allI)
    fix rest
    assume "wf_json (JString s)"
    then obtain b where b: "encode_basestring_ascii s = 34 # b"
      "\<And>rest. scanstring (b @ rest) = Some (s, rest)"
      using scanstring_encode[of s] by auto
    show "scan_once (dumps (JString s) @ rest) = Some (JString s, rest)"
      by (subst scan_once.simps) (simp add: b)
  qed
next
  case (2 kvs)
  show ?case
  proof (intro impI allI)
    fix rest
    assume wf: "wf_json (JObject kvs)"
    show "scan_once (dumps (JObject kvs) @ rest) = Some (JObject kvs, rest)"
    proof (cases "kvs = []")
      case True
      then show ?thesis by (subst scan_once.simps) simp
    next
      case False
      with wf 2 obtain b where b: "dumps_items kvs = 34 # b"
        "\<And>rest. JSONObject (b @ 125 # rest) = Some (kvs, rest)"
        by auto
      have "dict kvs = kvs" using wf by (simp add: dict_distinct)
      then show ?thesis by (subst scan_once.simps) (simp add: b)
    qed
  qed
next
  case 3
  show ?case by simp
next
  case (4 k v kvs)
  show ?case
  proof (intro impI)
    assume wf: "wf_items ((k, v) # kvs)"
    then obtain bk where bk: "encode_basestring_ascii k = 34 # bk"
      "\<And>rest. scanstring (bk @ rest) = Some (k, rest)"
      using scanstring_encode[of k] by auto
    have v: "\<And>rest. scan_once (dumps v @ rest) = Some (v, rest)"
      using wf 4(1) by simp
    show "\<exists>b. dumps_items ((k, v) # kvs) = 34 # b
            \<and> (\<forall>rest. JSONObject (b @ 125 # rest) = Some ((k, v) # kvs, rest))"
    proof (cases "kvs = []")
      case True
      have "dumps_items ((k, v) # kvs) = 34 # (bk @ [58, 32] @ dumps v)"
        using True bk(1) by simp
      moreover have "JSONObject ((bk @ [58, 32] @ dumps v) @ 125 # rest) = Some ((k, v) # kvs, rest)"
        for rest
        by (subst JSONObject.simps) (simp add: bk(2) v True)
      ultimately show ?thesis by blast
    next
      case False
      with wf 4(2) obtain b where b: "dumps_items kvs = 34 # b"
        "\<And>rest. JSONObject (b @ 125 # rest) = Some (kvs, rest)"
        by auto
      have "dumps_items ((k, v) # kvs) = 34 # (bk @ [58, 32] @ dumps v @ [44, 32, 34] @ b)"
        using False bk(1) b(1) by simp
      moreover have "JSONObject ((bk @ [58, 32] @ dumps v @ [44, 32, 34] @ b) @ 125 # rest)
                       = Some ((k, v) # kvs, rest)" for rest
        by (subst JSONObject.simps) (simp add: bk(2) v b(2))
      ultimately show ?thesis by blast
    qed
  qed
qed

lemma loads_dumps: "wf_json v \<Longrightarrow> loads (dumps v) = Some v"
proof -
  assume "wf_json v"
  then have "scan_once (dumps v @ []) = Some (v, [])" using scan_roundtrip(1)[of v] by blast
  moreover have "skip_ws (dumps v) = dumps v" using skip_ws_dumps[of v "[]"] by simp
  ultimately show ?thesis by (simp add: loads_def)
qed

lemma loads_line: "wf_json v \<Longrightarrow> loads (dumps v @ [10]) = Some v"
proof -
  assume "wf_json v"
  then have "scan_once (dumps v @ [10]) = Some (v, [10])"
    using scan_roundtrip(1)[of v] by blast
  then show ?thesis by (simp add: loads_def)
qed

text \<open>
  Why the text must hold no high surrogate: written as two escapes, a high surrogate
  followed by a low one is read back as the one code point they encode.
\<close>

lemma surrogates_joined:
  "loads (dumps (JString [0xd83d, 0xde00])) = Some (JString [0x1f600])"
proof -
  have d: "dumps (JString [0xd83d, 0xde00])
             = [34, 92, 117, 100, 56, 51, 100, 92, 117, 100, 101, 48, 48, 34]"
    by (simp add: encode_basestring_ascii_def ESCAPE_ASCII_def replace_def hex4_def hex_digit_def)
  have e: "scan_escape [117, 100, 56, 51, 100, 92, 117, 100, 101, 48, 48, 34]
             = Some (0x1f600, [34])"
    by (simp add: scan_escape_def decode_uXXXX_def hexval_def)
  have "scanstring [92, 117, 100, 56, 51, 100, 92, 117, 100, 101, 48, 48, 34]
          = Some ([0x1f600], [])"
    by (simp add: e emit_def)
  then show ?thesis
    unfolding d loads_def by (subst scan_once.simps) simp
qed

subsection \<open>What is left after a value is shorter\<close>

lemma decode_uXXXX_length: "decode_uXXXX s = Some u \<Longrightarrow> 4 \<le> length s"
  by (auto simp: decode_uXXXX_def split: list.splits)

lemma scan_escape_shorter: "scan_escape s = Some (ch, rest) \<Longrightarrow> length rest < length s"
  unfolding scan_escape_def
  by (cases s) (auto split: if_splits option.splits dest: decode_uXXXX_length)

lemma scanstring_shorter: "scanstring s = Some (t, rest) \<Longrightarrow> length rest < length s"
proof (induction s arbitrary: t rule: scanstring.induct)
  case 1
  then show ?case by simp
next
  case (2 c cs)
  show ?case
  proof (cases "c = 34")
    case True
    with "2.prems" show ?thesis by simp
  next
    case n34: False
    show ?thesis
    proof (cases "c = 92")
      case True
      with n34 "2.prems" obtain ch r t' where
        e: "scan_escape cs = Some (ch, r)" and s: "scanstring r = Some (t', rest)"
        by (auto simp: emit_def split: option.splits)
      from "2.IH"(1)[OF n34 True e[THEN sym, THEN sym] refl s]
      have "length rest < length r" .
      with scan_escape_shorter[OF e] show ?thesis by simp
    next
      case False
      with n34 "2.prems" obtain t' where c: "\<not> c < 32" and s: "scanstring cs = Some (t', rest)"
        by (auto simp: emit_def split: option.splits if_splits)
      from "2.IH"(2)[OF n34 False c s] show ?thesis by simp
    qed
  qed
qed

lemma length_skip_ws: "length (skip_ws s) \<le> length s"
  by (simp add: skip_ws_def length_dropWhile_le)

lemma skip_ws_Cons_shorter: "skip_ws s = c # r \<Longrightarrow> length r < length s"
  using length_skip_ws[of s] by simp

lemma scan_shorter:
  "scan_once s = Some (v, r) \<Longrightarrow> length r < length s"
  "JSONObject s' = Some (ps, r') \<Longrightarrow> length r' < length s'"
proof (induction s and s' arbitrary: v r and ps r' rule: scan_once_JSONObject.induct)
  case (1 s)
  from "1.prems" obtain c cs where s: "s = c # cs"
    by (subst (asm) scan_once.simps) (auto split: list.splits)
  show ?case
  proof (cases "c = 34")
    case True
    with "1.prems" s obtain t where "scanstring cs = Some (t, r)"
      by (subst (asm) scan_once.simps) (auto split: option.splits)
    then show ?thesis using scanstring_shorter s by fastforce
  next
    case n34: False
    with "1.prems" s have c: "c = 123"
      by (subst (asm) scan_once.simps) (auto split: if_splits)
    with "1.prems" s n34 obtain d ds where d: "skip_ws cs = d # ds"
      by (subst (asm) scan_once.simps) (auto split: list.splits)
    then have l: "length ds < length cs" by (rule skip_ws_Cons_shorter)
    show ?thesis
    proof (cases "d = 125")
      case True
      with "1.prems" s c d have "r = ds"
        by (subst (asm) scan_once.simps) simp
      with l s show ?thesis by simp
    next
      case n125: False
      with "1.prems" s c d have d34: "d = 34"
        by (subst (asm) scan_once.simps) (auto split: if_splits)
      with "1.prems" s c d obtain pairs where "JSONObject ds = Some (pairs, r)"
        by (subst (asm) scan_once.simps) (auto split: option.splits)
      from "1.IH"[OF s n34 c d n125 d34 this] l s show ?thesis by simp
    qed
  qed
next
  case (2 s)
  from "2.prems" obtain key r1 where k: "scanstring s = Some (key, r1)"
    by (subst (asm) JSONObject.simps) (auto split: option.splits)
  with "2.prems" obtain c r2 where c: "skip_ws r1 = c # r2"
    by (subst (asm) JSONObject.simps) (auto split: list.splits)
  with "2.prems" k have c58: "\<not> c \<noteq> 58"
    by (subst (asm) JSONObject.simps) (auto split: if_splits)
  with "2.prems" k c obtain v r3 where v: "scan_once (skip_ws r2) = Some (v, r3)"
    by (subst (asm) JSONObject.simps) (auto split: option.splits)
  with "2.prems" k c c58 obtain d r4 where d: "skip_ws r3 = d # r4"
    by (subst (asm) JSONObject.simps) (auto split: list.splits)
  have l3: "length r3 < length s"
    using "2.IH"(1)[OF k refl c c58 v] scanstring_shorter[OF k] skip_ws_Cons_shorter[OF c]
      length_skip_ws[of r2] by simp
  have l4: "length r4 < length r3" using d by (rule skip_ws_Cons_shorter)
  show ?case
  proof (cases "d = 125")
    case True
    with "2.prems" k c c58 v d have "r' = r4"
      by (subst (asm) JSONObject.simps) simp
    with l3 l4 show ?thesis by simp
  next
    case n125: False
    with "2.prems" k c c58 v d have d44: "d = 44"
      by (subst (asm) JSONObject.simps) (auto split: if_splits)
    with "2.prems" k c c58 v d obtain q r5 where q: "skip_ws r4 = q # r5"
      by (subst (asm) JSONObject.simps) (auto split: list.splits)
    with "2.prems" k c c58 v d d44 have g: "q = 34 \<and> length r5 < length s"
      by (subst (asm) JSONObject.simps) (auto split: if_splits)
    with "2.prems" k c c58 v d d44 q obtain pairs where "JSONObject r5 = Some (pairs, r')"
      by (subst (asm) JSONObject.simps) (auto split: option.splits)
    from "2.IH"(2)[OF k refl c c58 v refl d n125 d44 q g this] g show ?thesis by simp
  qed
qed

lemma next_pair_shorter:
  assumes "scanstring s = Some (key, r1)" and "skip_ws r1 = c # r2"
    and "scan_once (skip_ws r2) = Some (v, r3)" and "skip_ws r3 = d # r4"
    and "skip_ws r4 = q # r5"
  shows "length r5 < length s"
  using scanstring_shorter[OF assms(1)] skip_ws_Cons_shorter[OF assms(2)]
    length_skip_ws[of r2] scan_shorter(1)[OF assms(3)] skip_ws_Cons_shorter[OF assms(4)]
    skip_ws_Cons_shorter[OF assms(5)]
  by simp

lemma JSONObject_unguarded:
  "JSONObject s =
     (case scanstring s of
        None \<Rightarrow> None
      | Some (key, r1) \<Rightarrow>
          (case skip_ws r1 of
             [] \<Rightarrow> None
           | c # r2 \<Rightarrow>
               if c \<noteq> 58 then None
               else
                 (case scan_once (skip_ws r2) of
                    None \<Rightarrow> None
                  | Some (v, r3) \<Rightarrow>
                      (case skip_ws r3 of
                         [] \<Rightarrow> None
                       | d # r4 \<Rightarrow>
                           if d = 125 then Some ([(key, v)], r4)
                           else if d = 44 then
                             (case skip_ws r4 of
                                [] \<Rightarrow> None
                              | q # r5 \<Rightarrow>
                                  if q = 34 then
                                    (case JSONObject r5 of
                                       None \<Rightarrow> None
                                     | Some (pairs, rest) \<Rightarrow> Some ((key, v) # pairs, rest))
                                  else None)
                           else None))))"
  by (subst JSONObject.simps)
    (auto split: option.splits list.splits dest: next_pair_shorter)

section \<open>The text the program builds\<close>

lemma plain_text_append [simp]: "plain_text (s @ t) \<longleftrightarrow> plain_text s \<and> plain_text t"
  by (simp add: plain_text_def)

lemma plain_text_Nil [simp]: "plain_text []"
  by (simp add: plain_text_def)

lemma plain_text_Cons: "plain_text (c # s) \<longleftrightarrow> plain_char c \<and> plain_text s"
  by (simp add: plain_text_def)

lemma plain_text_small: "\<forall>c \<in> set s. c < 256 \<Longrightarrow> plain_text s"
  by (auto simp: plain_text_def plain_char_def list_all_iff)

lemma plain_text_py [simp]: "plain_text (py cs)"
proof (rule plain_text_small, rule ballI)
  fix c assume "c \<in> set (py cs)"
  then obtain ch where "c = of_char ch" by (auto simp: py_def)
  then show "c < 256" by simp
qed

lemma plain_text_str_nat [simp]: "plain_text (str_nat n)"
  using str_nat_digits[of n] by (intro plain_text_small) auto

lemma plain_text_str_int [simp]: "plain_text (str_int i)"
proof -
  have "plain_text [45]" by (simp add: plain_text_def plain_char_def)
  then have "plain_text (45 # str_nat (nat (- i)))"
    using plain_text_append[of "[45]" "str_nat (nat (- i))"] by simp
  then show ?thesis by (simp add: str_int_def)
qed

lemma plain_text_zpad [simp]: "plain_text (zpad w n)"
proof -
  have "plain_text (replicate k 48)" for k
    by (intro plain_text_small) auto
  then show ?thesis by (simp add: zpad_def)
qed

lemma plain_text_join: "plain_text sep \<Longrightarrow> list_all plain_text xs \<Longrightarrow> plain_text (join sep xs)"
  by (induction sep xs rule: join.induct) simp_all

lemma plain_text_strftime [simp]: "plain_text (strftime_iso t)" "plain_text (strftime_plain t)"
  by (simp_all add: strftime_iso_def strftime_plain_def)

lemma plain_text_str_timedelta [simp]: "plain_text (str_timedelta td)"
  by (simp add: str_timedelta_def Let_def)

lemma plain_text_unique_id [simp]: "plain_text (unique_id t p)"
  by (simp add: unique_id_def)

lemma py_keys_distinct:
  "distinct (map fst
     [(py ''timestamp'', a), (py ''unique_id'', b), (py ''status'', c), (py ''message'', d),
      (py ''extra_info'', e)])"
  "distinct (map fst
     [(py ''source'', f), (py ''destination'', g), (py ''options'', h),
      (py ''sync_output'', i), (py ''start_time'', j), (py ''end_time'', k),
      (py ''duration'', l)])"
  by (simp_all add: py_def)

section \<open>What \<open>main\<close> does, case by case\<close>

lemma acquire_lock_fst: "fst (acquire_lock e p w) \<longleftrightarrow> openable e p \<and> \<not> held e p"
  by (simp add: acquire_lock_def)

lemma acquire_lock_snd:
  "snd (acquire_lock e p w) =
     w\<lparr>clock := lock_returns_at e,
       files := (if openable e p then (files w)(resolve e p \<mapsto> []) else files w)\<rparr>"
  by (simp add: acquire_lock_def)

lemma print_out_fst: "fst (print_out e t w) = print_stdout e t"
  by (simp add: print_out_def split: option.splits)

lemma print_out_snd:
  "snd (print_out e t w) = w\<lparr>stdout := stdout w @ (if print_stdout e t = None then [t] else [])\<rparr>"
  by (simp add: print_out_def split: option.splits)

lemma main_not_acquired:
  assumes "\<not> fst (acquire_lock e (lock a) w)"
  shows "main a e w =
           print_out e (py ''Error: Could not acquire lock'') (snd (acquire_lock e (lock a) w))"
proof (cases "acquire_lock e (lock a) w")
  case (Pair b w1)
  with assms show ?thesis by (simp add: main_def)
qed

lemma main_raised:
  assumes "fst (acquire_lock e (lock a) w)" "run e (cmd a) = Raised x"
  shows "main a e w =
          (Some x, w\<lparr>clock := run_returns_at e,
                     files := (files w)(resolve e (lock a) \<mapsto> []),
                     spawned := spawned w @ [(lock_returns_at e, cmd a)]\<rparr>)"
  using assms by (auto simp: main_def acquire_lock_def Let_def split: if_splits)

lemma main_exited:
  fixes a e w rc out err
  defines "line \<equiv> log_line e (unique_id (time_us e) (pid e))
                    (if rc = 0 then py ''info'' else py ''error'')
                    (if rc = 0 then py ''Sync successful.''
                     else if rc = 1 then py ''Sync failed due to a general error, exit code 1''
                     else if rc = 2
                     then py ''Sync failed due to a permission error, exit code 2''
                     else py ''Sync failed with exit code '' @ str_int rc)
                    (extra_info a (if rc = 0 then out else out @ [10] @ err)
                       (clock w) (run_returns_at e))"
  defines "w2 \<equiv> w\<lparr>clock := run_returns_at e,
                  files := (files w)(resolve e (lock a) \<mapsto> []),
                  spawned := spawned w @ [(lock_returns_at e, cmd a)]\<rparr>"
  defines "w3 \<equiv> w2\<lparr>files := (files w2)(resolve e (log a) \<mapsto>
                      content (files w2) (resolve e (log a))
                      @ (case short_write e (log a) line of None \<Rightarrow> line | Some n \<Rightarrow> take n line)),
                   writes := writes w @ [(log a, line)]\<rparr>"
  assumes "fst (acquire_lock e (lock a) w)" and "run e (cmd a) = Exited rc out err"
  shows "main a e w =
           (if \<not> openable e (log a) then (Some OSError, w2)
            else if short_write e (log a) line \<noteq> None then (Some OSError, w3)
            else if rc \<noteq> 0 then (Some NameError, w3)
            else if o_flag a
            then print_out e (py ''Well done. Source directory: '' @ source a
                              @ py ''. Details: '' @ log a) w3
            else (None, w3))"
proof (cases "rc = 0")
  case True
  then show ?thesis
    using assms(4,5) unfolding line_def w2_def w3_def
    by (auto simp: main_def acquire_lock_def log_message_def print_out_def Let_def
        split: if_splits option.splits)
next
  case False
  then show ?thesis
    using assms(4,5) unfolding line_def w2_def w3_def
    by (auto simp: main_def acquire_lock_def log_message_def print_out_def Let_def
        split: if_splits option.splits)
qed

text \<open>What a run that has passed the lock and whose command has exited leaves behind.\<close>

lemma main_writes:
  assumes "fst (acquire_lock e (lock a) w)" and "run e (cmd a) = Exited rc out err"
  shows "writes (snd (main a e w)) = writes w @
     (if openable e (log a) then
        [(log a, log_line e (unique_id (time_us e) (pid e))
           (if rc = 0 then py ''info'' else py ''error'')
           (if rc = 0 then py ''Sync successful.''
            else if rc = 1 then py ''Sync failed due to a general error, exit code 1''
            else if rc = 2 then py ''Sync failed due to a permission error, exit code 2''
            else py ''Sync failed with exit code '' @ str_int rc)
           (extra_info a (if rc = 0 then out else out @ [10] @ err)
              (clock w) (run_returns_at e)))]
      else [])"
  by (simp add: main_exited[OF assms] print_out_snd)

lemma main_spawned:
  assumes "fst (acquire_lock e (lock a) w)"
  shows "spawned (snd (main a e w)) = spawned w @ [(lock_returns_at e, cmd a)]"
proof (cases "run e (cmd a)")
  case (Raised x)
  then show ?thesis using main_raised[OF assms Raised] by simp
next
  case (Exited rc out err)
  then show ?thesis by (simp add: main_exited[OF assms Exited] print_out_snd)
qed

lemma main_clock:
  assumes "fst (acquire_lock e (lock a) w)"
  shows "clock (snd (main a e w)) = run_returns_at e"
proof (cases "run e (cmd a)")
  case (Raised x)
  then show ?thesis using main_raised[OF assms Raised] by simp
next
  case (Exited rc out err)
  then show ?thesis by (simp add: main_exited[OF assms Exited] print_out_snd)
qed

lemma main_stderr: "stderr (snd (main a e w)) = stderr w"
proof (cases "fst (acquire_lock e (lock a) w)")
  case False
  then show ?thesis by (simp add: main_not_acquired print_out_snd acquire_lock_snd)
next
  case g: True
  show ?thesis
  proof (cases "run e (cmd a)")
    case (Raised x)
    then show ?thesis using main_raised[OF g Raised] by simp
  next
    case (Exited rc out err)
    then show ?thesis by (simp add: main_exited[OF g Exited] print_out_snd)
  qed
qed

lemma failing_run_raises:
  assumes "fst (acquire_lock e (lock a) w)" and "run e (cmd a) = Exited rc out err"
    and "rc \<noteq> 0" and "openable e (log a)"
  shows "fst (main a e w) \<in> {Some NameError, Some OSError} \<and>
         stderr (snd (main a e w)) = stderr w"
  using assms(3,4) by (simp add: main_exited[OF assms(1,2)] main_stderr)

lemma content_upd_other: "f \<noteq> g \<Longrightarrow> content (fs(g \<mapsto> c)) f = content fs f"
  by (simp add: content_def)

lemma content_upd_same: "content (fs(f \<mapsto> c)) f = c"
  by (simp add: content_def)

lemma main_files_other:
  assumes "f \<noteq> resolve e (lock a)" "f \<noteq> resolve e (log a)"
  shows "files (snd (main a e w)) f = files w f"
proof (cases "fst (acquire_lock e (lock a) w)")
  case False
  then show ?thesis using assms
    by (simp add: main_not_acquired print_out_snd acquire_lock_snd)
next
  case g: True
  show ?thesis
  proof (cases "run e (cmd a)")
    case (Raised x)
    then show ?thesis using main_raised[OF g Raised] assms by simp
  next
    case (Exited rc out err)
    then show ?thesis using assms by (simp add: main_exited[OF g Exited] print_out_snd)
  qed
qed

lemma main_log_prefix:
  assumes "resolve e (lock a) \<noteq> resolve e (log a)"
  shows "prefix (content (files w) (resolve e (log a)))
           (content (files (snd (main a e w))) (resolve e (log a)))"
proof (cases "fst (acquire_lock e (lock a) w)")
  case False
  then show ?thesis using assms
    by (simp add: main_not_acquired print_out_snd acquire_lock_snd content_def)
next
  case g: True
  show ?thesis
  proof (cases "run e (cmd a)")
    case (Raised x)
    then show ?thesis using main_raised[OF g Raised] assms by (simp add: content_def)
  next
    case (Exited rc out err)
    then show ?thesis using assms
      by (simp add: main_exited[OF g Exited] print_out_snd content_upd_other
          content_upd_same)
  qed
qed

text \<open>The paths of the example runs, and the effect of \<open>log_message\<close> on its own.\<close>

lemma demo_resolve_paths:
  "demo_resolve (py ''/var/lock/aws_s3_sync.lock'') = 1"
  "demo_resolve (py ''/var/log/aws_s3_sync.log'') = 2"
  "demo_resolve (py ''/var/log/./aws_s3_sync.log'') = 2"
  by (simp_all add: demo_resolve_def py_def)

lemma demo_paths_differ:
  "py ''/var/log/./aws_s3_sync.log'' \<noteq> py ''/var/log/aws_s3_sync.log''"
  by (simp add: py_def)

lemma log_message_effect:
  "writes (snd (log_message e p u s m x w))
     = writes w @ (if openable e p then [(p, dumps (log_entry e u s m x) @ [10])] else [])"
  "f \<noteq> resolve e p \<Longrightarrow> files (snd (log_message e p u s m x w)) f = files w f"
  "prefix (content (files w) (resolve e p))
     (content (files (snd (log_message e p u s m x w))) (resolve e p))"
  "fst (log_message e p u s m x w) = None \<Longrightarrow>
     files (snd (log_message e p u s m x w)) (resolve e p)
       = Some (content (files w) (resolve e p) @ dumps (log_entry e u s m x) @ [10])"
  by (auto simp: log_message_def log_line_def Let_def content_upd_same
      split: option.splits if_splits)

section \<open>The claims\<close>

text \<open>
  C1. Once the lock is taken and the command has exited, the status and the message of
  the entry that \<open>main\<close> writes are determined by the exit code alone: 0 gives
  \<open>info\<close> and \<open>Sync successful.\<close>; 1, 2 and any other code give \<open>error\<close> and the
  message of that code. The entry is written whenever the log file can be opened.
\<close>

theorem classification_by_exit_code:
  assumes "fst (acquire_lock e (lock a) w)" and "run e (cmd a) = Exited rc out err"
  shows "writes (snd (main a e w)) = writes w @
     (if openable e (log a) then
        [(log a, log_line e (unique_id (time_us e) (pid e))
           (if rc = 0 then py ''info'' else py ''error'')
           (if rc = 0 then py ''Sync successful.''
            else if rc = 1 then py ''Sync failed due to a general error, exit code 1''
            else if rc = 2 then py ''Sync failed due to a permission error, exit code 2''
            else py ''Sync failed with exit code '' @ str_int rc)
           (extra_info a (if rc = 0 then out else out @ [10] @ err)
              (clock w) (run_returns_at e)))]
      else [])"
  using main_writes[OF assms] .

theorem classification_by_exit_code_witness:
  "fst (acquire_lock (demo_env 13) (lock demo_args) demo_world) \<and>
   run (demo_env 13) (cmd demo_args) = Exited 13 (py ''upload: a.txt'') (py ''fatal error'') \<and>
   writes (snd (main demo_args (demo_env 13) demo_world)) =
     [(py ''/var/log/aws_s3_sync.log'',
       log_line (demo_env 13) (unique_id 1793523600123456 4242) (py ''error'')
         (py ''Sync failed with exit code 13'')
         (extra_info demo_args (py ''upload: a.txt'' @ [10] @ py ''fatal error'')
            (at 1 0 0) (at 1 0 3)))]"
proof -
  have g: "fst (acquire_lock (demo_env 13) (lock demo_args) demo_world)"
    by (simp add: acquire_lock_fst demo_env_def)
  have r: "run (demo_env 13) (cmd demo_args)
             = Exited 13 (py ''upload: a.txt'') (py ''fatal error'')"
    by (simp add: demo_env_def)
  have s: "py ''Sync failed with exit code '' @ str_int 13 = py ''Sync failed with exit code 13''"
    by (simp add: str_int_def str_nat.simps py_def)
  show ?thesis
    using classification_by_exit_code[OF g r] g r s
    by (simp add: demo_env_def demo_args_def demo_world_def)
qed







text \<open>
  C4. After a command that failed, \<open>main\<close> writes the error entry and then raises
  \<open>NameError\<close> in place of printing: nothing reaches standard error, and the process
  ends with status 1. Here the command exits with code 1.
\<close>

theorem failure_report_raises:
  "fst (main demo_args (demo_env 1) demo_world) = Some NameError \<and>
   exit_status (fst (main demo_args (demo_env 1) demo_world)) = 1 \<and>
   stderr (snd (main demo_args (demo_env 1) demo_world)) = [] \<and>
   stdout (snd (main demo_args (demo_env 1) demo_world)) = [] \<and>
   writes (snd (main demo_args (demo_env 1) demo_world)) =
     [(py ''/var/log/aws_s3_sync.log'',
       log_line (demo_env 1) (unique_id 1793523600123456 4242) (py ''error'')
         (py ''Sync failed due to a general error, exit code 1'')
         (extra_info demo_args (py ''upload: a.txt'' @ [10] @ py ''fatal error'')
            (at 1 0 0) (at 1 0 3)))]"
proof -
  have g: "fst (acquire_lock (demo_env 1) (lock demo_args) demo_world)"
    by (simp add: acquire_lock_fst demo_env_def)
  have r: "run (demo_env 1) (cmd demo_args)
             = Exited 1 (py ''upload: a.txt'') (py ''fatal error'')"
    by (simp add: demo_env_def)
  have l: "openable (demo_env 1) (log demo_args)" by (simp add: demo_env_def)
  have s: "short_write (demo_env 1) p d = None" for p d by (simp add: demo_env_def)
  have d: "clock demo_world = at 1 0 0" "run_returns_at (demo_env 1) = at 1 0 3"
    "time_us (demo_env 1) = 1793523600123456" "pid (demo_env 1) = 4242"
    "writes demo_world = []" "stdout demo_world = []" "stderr demo_world = []"
    "log demo_args = py ''/var/log/aws_s3_sync.log''"
    by (simp_all add: demo_world_def demo_env_def demo_args_def)
  have f: "fst (main demo_args (demo_env 1) demo_world) = Some NameError"
    "stdout (snd (main demo_args (demo_env 1) demo_world)) = stdout demo_world"
    using l s by (simp_all add: main_exited[OF g r])
  show ?thesis
    using f main_stderr[of demo_args "demo_env 1" demo_world] main_writes[OF g r] l
    by (simp add: d exit_status_def del: One_nat_def)
qed

text \<open>
  C5, as it holds of the code. The start time is read before the lock is attempted, and the end time
  right after the command has exited; the command is spawned once the attempt to lock
  has returned. The logged duration is therefore the time taken by the lock attempt
  plus the time the command ran.
\<close>

theorem duration_spans_lock_and_run:
  assumes "fst (acquire_lock e (lock a) w)" and "run e (cmd a) = Exited rc out err"
  shows "spawned (snd (main a e w)) = spawned w @ [(lock_returns_at e, cmd a)] \<and>
         clock (snd (main a e w)) = run_returns_at e \<and>
         writes (snd (main a e w)) = writes w @
           (if openable e (log a) then
              [(log a, log_line e (unique_id (time_us e) (pid e))
                 (if rc = 0 then py ''info'' else py ''error'')
                 (if rc = 0 then py ''Sync successful.''
                  else if rc = 1 then py ''Sync failed due to a general error, exit code 1''
                  else if rc = 2
                  then py ''Sync failed due to a permission error, exit code 2''
                  else py ''Sync failed with exit code '' @ str_int rc)
                 (JObject
                   [(py ''source'', JString (source a)),
                    (py ''destination'', JString (destination a)),
                    (py ''options'', JString (join (py '' '') (sync_options a))),
                    (py ''sync_output'', JString (if rc = 0 then out else out @ [10] @ err)),
                    (py ''start_time'', JString (strftime_plain (clock w))),
                    (py ''end_time'', JString (strftime_plain (run_returns_at e))),
                    (py ''duration'',
                     JString (str_timedelta (datetime_sub (run_returns_at e) (clock w))))]))]
            else []) \<and>
         timedelta_micros (datetime_sub (run_returns_at e) (clock w))
           = timedelta_micros (datetime_sub (lock_returns_at e) (clock w))
             + timedelta_micros (datetime_sub (run_returns_at e) (lock_returns_at e))"
  using main_spawned[OF assms(1)] main_clock[OF assms(1)] main_writes[OF assms]
  by (simp add: extra_info_def timedelta_micros_sub)

theorem duration_spans_lock_and_run_witness:
  "fst (acquire_lock (demo_env 0) (lock demo_args) demo_world) \<and>
   run (demo_env 0) (cmd demo_args) = Exited 0 (py ''upload: a.txt'') (py ''fatal error'') \<and>
   spawned (snd (main demo_args (demo_env 0) demo_world)) = [(at 1 0 1, cmd demo_args)] \<and>
   timedelta_micros (datetime_sub (at 1 0 3) (at 1 0 0))
     = timedelta_micros (datetime_sub (at 1 0 1) (at 1 0 0))
       + timedelta_micros (datetime_sub (at 1 0 3) (at 1 0 1))"
proof -
  have g: "fst (acquire_lock (demo_env 0) (lock demo_args) demo_world)"
    by (simp add: acquire_lock_fst demo_env_def)
  have r: "run (demo_env 0) (cmd demo_args)
             = Exited 0 (py ''upload: a.txt'') (py ''fatal error'')"
    by (simp add: demo_env_def)
  have d: "clock demo_world = at 1 0 0" "run_returns_at (demo_env 0) = at 1 0 3"
    "lock_returns_at (demo_env 0) = at 1 0 1" "spawned demo_world = []"
    by (simp_all add: demo_world_def demo_env_def)
  note t = duration_spans_lock_and_run[OF g r]
  show ?thesis
  proof (intro conjI)
    show "fst (acquire_lock (demo_env 0) (lock demo_args) demo_world)" by (rule g)
    show "run (demo_env 0) (cmd demo_args)
            = Exited 0 (py ''upload: a.txt'') (py ''fatal error'')" by (rule r)
    show "spawned (snd (main demo_args (demo_env 0) demo_world)) = [(at 1 0 1, cmd demo_args)]"
      using t[THEN conjunct1] by (simp add: d)
    show "timedelta_micros (datetime_sub (at 1 0 3) (at 1 0 0))
            = timedelta_micros (datetime_sub (at 1 0 1) (at 1 0 0))
              + timedelta_micros (datetime_sub (at 1 0 3) (at 1 0 1))"
      using t[THEN conjunct2, THEN conjunct2, THEN conjunct2] by (simp add: d)
  qed
qed

text \<open>
  C5 as the specification words it does not hold when taking the lock takes time: the
  invocation starts at 01:00:00, the lock is held and the command spawned at 01:00:01,
  the command exits at 01:00:03. The entry gives 01:00:00 as the start and three
  seconds as the duration; the command ran for two.
\<close>

theorem start_time_before_lock_counterexample:
  "spawned (snd (main demo_args (demo_env 0) demo_world)) = [(at 1 0 1, cmd demo_args)] \<and>
   strftime_plain (at 1 0 1) = py ''2026-11-01 01:00:01'' \<and>
   str_timedelta (datetime_sub (at 1 0 3) (at 1 0 1)) = py ''0:00:02'' \<and>
   writes (snd (main demo_args (demo_env 0) demo_world)) =
     [(py ''/var/log/aws_s3_sync.log'',
       log_line (demo_env 0) (unique_id 1793523600123456 4242) (py ''info'')
         (py ''Sync successful.'')
         (JObject
           [(py ''source'', JString (py ''/data'')),
            (py ''destination'', JString (py ''s3://bucket/data'')),
            (py ''options'', JString (py ''--delete --quiet'')),
            (py ''sync_output'', JString (py ''upload: a.txt'')),
            (py ''start_time'', JString (py ''2026-11-01 01:00:00'')),
            (py ''end_time'', JString (py ''2026-11-01 01:00:03'')),
            (py ''duration'', JString (py ''0:00:03''))]))]"
proof -
  have g: "fst (acquire_lock (demo_env 0) (lock demo_args) demo_world)"
    by (simp add: acquire_lock_fst demo_env_def)
  have r: "run (demo_env 0) (cmd demo_args)
             = Exited 0 (py ''upload: a.txt'') (py ''fatal error'')"
    by (simp add: demo_env_def)
  have l: "openable (demo_env 0) (log demo_args)" by (simp add: demo_env_def)
  have j: "join (py '' '') (sync_options demo_args) = py ''--delete --quiet''"
    by (simp add: demo_args_def py_def)
  have d: "clock demo_world = at 1 0 0" "run_returns_at (demo_env 0) = at 1 0 3"
    "lock_returns_at (demo_env 0) = at 1 0 1" "spawned demo_world = []"
    "time_us (demo_env 0) = 1793523600123456" "pid (demo_env 0) = 4242"
    "writes demo_world = []" "source demo_args = py ''/data''"
    "destination demo_args = py ''s3://bucket/data''"
    "log demo_args = py ''/var/log/aws_s3_sync.log''"
    by (simp_all add: demo_world_def demo_env_def demo_args_def)
  show ?thesis
    using main_spawned[OF g] main_writes[OF g r] l
    by (simp add: extra_info_def d j at_plain at_durations del: One_nat_def)
qed

text \<open>
  C6. The line that \<open>main\<close> writes, read back with \<open>json.loads\<close>, is the entry again:
  \<open>timestamp\<close>, \<open>unique_id\<close>, \<open>status\<close>, \<open>message\<close> and \<open>extra_info\<close>, and within
  \<open>extra_info\<close> the fields \<open>source\<close>, \<open>destination\<close>, \<open>options\<close>, \<open>sync_output\<close>,
  \<open>start_time\<close>, \<open>end_time\<close> and \<open>duration\<close>, each with the value it was given and
  in this order. The arguments and the output of the command are text as Python
  decodes it.
\<close>

theorem log_record_roundtrip:
  assumes "fst (acquire_lock e (lock a) w)" and "run e (cmd a) = Exited rc out err"
    and "openable e (log a)"
    and "plain_text (source a)" and "plain_text (destination a)"
    and "list_all plain_text (sync_options a)"
    and "plain_text out" and "plain_text err"
  shows "\<exists>line. writes (snd (main a e w)) = writes w @ [(log a, line)] \<and>
           loads line = Some (JObject
             [(py ''timestamp'', JString (strftime_iso (utcnow e))),
              (py ''unique_id'', JString (unique_id (time_us e) (pid e))),
              (py ''status'', JString (if rc = 0 then py ''info'' else py ''error'')),
              (py ''message'', JString
                 (if rc = 0 then py ''Sync successful.''
                  else if rc = 1 then py ''Sync failed due to a general error, exit code 1''
                  else if rc = 2
                  then py ''Sync failed due to a permission error, exit code 2''
                  else py ''Sync failed with exit code '' @ str_int rc)),
              (py ''extra_info'', JObject
                 [(py ''source'', JString (source a)),
                  (py ''destination'', JString (destination a)),
                  (py ''options'', JString (join (py '' '') (sync_options a))),
                  (py ''sync_output'', JString (if rc = 0 then out else out @ [10] @ err)),
                  (py ''start_time'', JString (strftime_plain (clock w))),
                  (py ''end_time'', JString (strftime_plain (run_returns_at e))),
                  (py ''duration'', JString
                     (str_timedelta (datetime_sub (run_returns_at e) (clock w))))])])"
proof -
  define status where "status = (if rc = 0 then py ''info'' else py ''error'')"
  define message where "message =
     (if rc = 0 then py ''Sync successful.''
      else if rc = 1 then py ''Sync failed due to a general error, exit code 1''
      else if rc = 2 then py ''Sync failed due to a permission error, exit code 2''
      else py ''Sync failed with exit code '' @ str_int rc)"
  define sync_output where "sync_output = (if rc = 0 then out else out @ [10] @ err)"
  define info where "info = extra_info a sync_output (clock w) (run_returns_at e)"
  define entry where "entry = log_entry e (unique_id (time_us e) (pid e)) status message info"
  have nl: "plain_char 10" by (simp add: plain_char_def)
  have so: "plain_text sync_output"
    using assms(7,8) nl by (simp add: sync_output_def plain_text_Cons)
  have st: "plain_text status" by (simp add: status_def)
  have ms: "plain_text message" by (simp add: message_def)
  have op: "plain_text (join (py '' '') (sync_options a))"
    using assms(6) by (simp add: plain_text_join)
  have wi: "wf_json info"
    unfolding info_def extra_info_def
    using assms(4,5) so op py_keys_distinct(2) by simp
  have we: "wf_json entry"
    unfolding entry_def log_entry_def
    using wi st ms py_keys_distinct(1) by simp
  have wr: "writes (snd (main a e w)) = writes w @ [(log a, dumps entry @ [10])]"
    using main_writes[OF assms(1,2)] assms(3)
    by (simp add: entry_def info_def status_def message_def sync_output_def log_line_def)
  have "loads (dumps entry @ [10]) = Some entry" using we by (rule loads_line)
  then have "loads (dumps entry @ [10]) = Some (JObject
             [(py ''timestamp'', JString (strftime_iso (utcnow e))),
              (py ''unique_id'', JString (unique_id (time_us e) (pid e))),
              (py ''status'', JString status),
              (py ''message'', JString message),
              (py ''extra_info'', JObject
                 [(py ''source'', JString (source a)),
                  (py ''destination'', JString (destination a)),
                  (py ''options'', JString (join (py '' '') (sync_options a))),
                  (py ''sync_output'', JString sync_output),
                  (py ''start_time'', JString (strftime_plain (clock w))),
                  (py ''end_time'', JString (strftime_plain (run_returns_at e))),
                  (py ''duration'', JString
                     (str_timedelta (datetime_sub (run_returns_at e) (clock w))))])])"
    by (simp add: entry_def log_entry_def info_def extra_info_def)
  with wr show ?thesis
    unfolding status_def message_def sync_output_def by blast
qed

theorem log_record_roundtrip_witness:
  "fst (acquire_lock (demo_env 13) (lock demo_args) demo_world) \<and>
   run (demo_env 13) (cmd demo_args) = Exited 13 (py ''upload: a.txt'') (py ''fatal error'') \<and>
   openable (demo_env 13) (log demo_args) \<and>
   plain_text (source demo_args) \<and> plain_text (destination demo_args) \<and>
   list_all plain_text (sync_options demo_args) \<and>
   plain_text (py ''upload: a.txt'') \<and> plain_text (py ''fatal error'') \<and>
   (\<exists>line. writes (snd (main demo_args (demo_env 13) demo_world))
             = [(py ''/var/log/aws_s3_sync.log'', line)] \<and>
      loads line = Some (JObject
        [(py ''timestamp'', JString (py ''2026-11-01T09:00:03Z'')),
         (py ''unique_id'', JString (unique_id 1793523600123456 4242)),
         (py ''status'', JString (py ''error'')),
         (py ''message'', JString (py ''Sync failed with exit code 13'')),
         (py ''extra_info'', JObject
            [(py ''source'', JString (py ''/data'')),
             (py ''destination'', JString (py ''s3://bucket/data'')),
             (py ''options'', JString (py ''--delete --quiet'')),
             (py ''sync_output'', JString (py ''upload: a.txt'' @ [10] @ py ''fatal error'')),
             (py ''start_time'', JString (py ''2026-11-01 01:00:00'')),
             (py ''end_time'', JString (py ''2026-11-01 01:00:03'')),
             (py ''duration'', JString (py ''0:00:03''))])]))"
proof -
  have g: "fst (acquire_lock (demo_env 13) (lock demo_args) demo_world)"
    by (simp add: acquire_lock_fst demo_env_def)
  have r: "run (demo_env 13) (cmd demo_args)
             = Exited 13 (py ''upload: a.txt'') (py ''fatal error'')"
    by (simp add: demo_env_def)
  have l: "openable (demo_env 13) (log demo_args)" by (simp add: demo_env_def)
  have p: "plain_text (source demo_args)" "plain_text (destination demo_args)"
    "list_all plain_text (sync_options demo_args)"
    by (simp_all add: demo_args_def)
  have q: "plain_text (py ''upload: a.txt'')" "plain_text (py ''fatal error'')" by simp_all
  have j: "join (py '' '') (sync_options demo_args) = py ''--delete --quiet''"
    by (simp add: demo_args_def py_def)
  have s: "py ''Sync failed with exit code '' @ str_int 13 = py ''Sync failed with exit code 13''"
    by (simp add: str_int_def str_nat.simps py_def)
  have d: "clock demo_world = at 1 0 0" "run_returns_at (demo_env 13) = at 1 0 3"
    "utcnow (demo_env 13) = at 9 0 3"
    "time_us (demo_env 13) = 1793523600123456" "pid (demo_env 13) = 4242"
    "writes demo_world = []" "source demo_args = py ''/data''"
    "destination demo_args = py ''s3://bucket/data''"
    "log demo_args = py ''/var/log/aws_s3_sync.log''"
    by (simp_all add: demo_world_def demo_env_def demo_args_def)
  from log_record_roundtrip[OF g r l p q]
  have "\<exists>line. writes (snd (main demo_args (demo_env 13) demo_world))
             = [(py ''/var/log/aws_s3_sync.log'', line)] \<and>
      loads line = Some (JObject
        [(py ''timestamp'', JString (py ''2026-11-01T09:00:03Z'')),
         (py ''unique_id'', JString (unique_id 1793523600123456 4242)),
         (py ''status'', JString (py ''error'')),
         (py ''message'', JString (py ''Sync failed with exit code 13'')),
         (py ''extra_info'', JObject
            [(py ''source'', JString (py ''/data'')),
             (py ''destination'', JString (py ''s3://bucket/data'')),
             (py ''options'', JString (py ''--delete --quiet'')),
             (py ''sync_output'', JString (py ''upload: a.txt'' @ [10] @ py ''fatal error'')),
             (py ''start_time'', JString (py ''2026-11-01 01:00:00'')),
             (py ''end_time'', JString (py ''2026-11-01 01:00:03'')),
             (py ''duration'', JString (py ''0:00:03''))])])"
    by (simp add: d j s at_iso at_plain at_durations del: One_nat_def)
  then show ?thesis using g r l p q by (simp only: simp_thms)
qed

text \<open>
  C7. The invocation id is the decimal microsecond timestamp, a hyphen, and the decimal
  process id; two invocations that differ in the timestamp or in the process id get
  different ids.
\<close>

theorem unique_id_distinct:
  "unique_id t p = str_int t @ py ''-'' @ str_nat p \<and>
   (t \<noteq> t' \<or> p \<noteq> p' \<longrightarrow> unique_id t p \<noteq> unique_id t' p')"
  using unique_id_inj[of t p t' p'] by (auto simp: unique_id_def)

theorem unique_id_distinct_witness:
  "unique_id 1793523600123456 4242 = py ''1793523600123456-4242'' \<and>
   unique_id 1793523600123456 4242 \<noteq> unique_id 1793523600123456 4243"
proof (intro conjI)
  have "str_int 1793523600123456 @ py ''-'' @ str_nat 4242 = py ''1793523600123456-4242''"
    by (simp add: str_int_def str_nat.simps py_def)
  with unique_id_distinct[of 1793523600123456 4242, THEN conjunct1]
  show "unique_id 1793523600123456 4242 = py ''1793523600123456-4242''"
    by (rule trans)
  show "unique_id 1793523600123456 4242 \<noteq> unique_id 1793523600123456 4243"
    by (rule unique_id_distinct[THEN conjunct2, THEN mp]) simp
qed

text \<open>
  C8, as it holds of the code. \<open>log_message\<close> calls \<open>f.write\<close> once when the file can be
  opened and not at all when it cannot; it touches no file but the one its path names,
  and in that file the bytes already there stay where they are. When it succeeds they
  are followed by one record that holds no newline and by the newline that ends it.
  After an invocation whose lock path and log path name different files, the log
  starts with what it held before.
\<close>

theorem log_append_only:
  "writes (snd (log_message e p u s m x w))
     = writes w @ (if openable e p then [(p, dumps (log_entry e u s m x) @ [10])] else []) \<and>
   (\<forall>f. f \<noteq> resolve e p \<longrightarrow> files (snd (log_message e p u s m x w)) f = files w f) \<and>
   prefix (content (files w) (resolve e p))
     (content (files (snd (log_message e p u s m x w))) (resolve e p)) \<and>
   (fst (log_message e p u s m x w) = None \<longrightarrow>
      files (snd (log_message e p u s m x w)) (resolve e p)
        = Some (content (files w) (resolve e p) @ dumps (log_entry e u s m x) @ [10])) \<and>
   10 \<notin> set (dumps (log_entry e u s m x)) \<and>
   (resolve e (lock a) \<noteq> resolve e (log a) \<longrightarrow>
      prefix (content (files w) (resolve e (log a)))
        (content (files (snd (main a e w))) (resolve e (log a))))"
proof (intro conjI allI impI)
  show "10 \<notin> set (dumps (log_entry e u s m x))" by (rule dumps_no_newline)
qed (simp_all add: log_message_effect main_log_prefix)

theorem log_append_only_witness:
  "writes (snd (log_message (demo_env 0) (py ''/var/log/aws_s3_sync.log'') (py ''1-2'')
                  (py ''info'') (py ''Sync successful.'') (JObject []) demo_world))
     = [(py ''/var/log/aws_s3_sync.log'',
         dumps (log_entry (demo_env 0) (py ''1-2'') (py ''info'') (py ''Sync successful.'')
                  (JObject [])) @ [10])] \<and>
   files (snd (log_message (demo_env 0) (py ''/var/log/aws_s3_sync.log'') (py ''1-2'')
                 (py ''info'') (py ''Sync successful.'') (JObject []) demo_world)) 1
     = None \<and>
   fst (log_message (demo_env 0) (py ''/var/log/aws_s3_sync.log'') (py ''1-2'')
          (py ''info'') (py ''Sync successful.'') (JObject []) demo_world) = None \<and>
   files (snd (log_message (demo_env 0) (py ''/var/log/aws_s3_sync.log'') (py ''1-2'')
                 (py ''info'') (py ''Sync successful.'') (JObject []) demo_world)) 2
     = Some (py ''earlier entry'' @ [10]
             @ dumps (log_entry (demo_env 0) (py ''1-2'') (py ''info'')
                        (py ''Sync successful.'') (JObject [])) @ [10]) \<and>
   10 \<notin> set (dumps (log_entry (demo_env 0) (py ''1-2'') (py ''info'')
                 (py ''Sync successful.'') (JObject []))) \<and>
   resolve (demo_env 0) (lock demo_args) \<noteq> resolve (demo_env 0) (log demo_args) \<and>
   prefix (py ''earlier entry'' @ [10])
     (content (files (snd (main demo_args (demo_env 0) demo_world))) 2)"
proof -
  let ?p = "py ''/var/log/aws_s3_sync.log''"
  let ?l = "log_message (demo_env 0) ?p (py ''1-2'') (py ''info'') (py ''Sync successful.'')
              (JObject []) demo_world"
  let ?d = "dumps (log_entry (demo_env 0) (py ''1-2'') (py ''info'') (py ''Sync successful.'')
              (JObject []))"
  have o: "openable (demo_env 0) ?p" by (simp add: demo_env_def)
  have z: "fst ?l = None" by (simp add: log_message_def Let_def demo_env_def)
  have r: "resolve (demo_env 0) ?p = 2" "resolve (demo_env 0) (lock demo_args) = 1"
    "resolve (demo_env 0) (log demo_args) = 2"
    by (simp_all add: demo_env_def demo_args_def demo_resolve_paths)
  have c: "content (files demo_world) 2 = py ''earlier entry'' @ [10]"
    "files demo_world 1 = None" "writes demo_world = []"
    by (simp_all add: demo_world_def content_def)
  have n: "resolve (demo_env 0) (lock demo_args) \<noteq> resolve (demo_env 0) (log demo_args)"
    by (simp add: r)
  from log_append_only[of "demo_env 0" ?p "py ''1-2''" "py ''info''" "py ''Sync successful.''"
      "JObject []" demo_world demo_args]
  have t: "writes (snd ?l) = writes demo_world @ (if openable (demo_env 0) ?p then [(?p, ?d @ [10])] else [])"
    "\<forall>f. f \<noteq> resolve (demo_env 0) ?p \<longrightarrow> files (snd ?l) f = files demo_world f"
    "fst ?l = None \<longrightarrow>
       files (snd ?l) (resolve (demo_env 0) ?p)
         = Some (content (files demo_world) (resolve (demo_env 0) ?p) @ ?d @ [10])"
    "10 \<notin> set ?d"
    "resolve (demo_env 0) (lock demo_args) \<noteq> resolve (demo_env 0) (log demo_args) \<longrightarrow>
       prefix (content (files demo_world) (resolve (demo_env 0) (log demo_args)))
        (content (files (snd (main demo_args (demo_env 0) demo_world)))
           (resolve (demo_env 0) (log demo_args)))"
    by blast+
  show ?thesis
  proof (intro conjI)
    show "writes (snd ?l) = [(?p, ?d @ [10])]" using t(1) o c(3) by simp
    show "files (snd ?l) 1 = None" using t(2) r(1) c(2) by simp
    show "fst ?l = None" by (rule z)
    show "files (snd ?l) 2 = Some (py ''earlier entry'' @ [10] @ ?d @ [10])"
      using t(3) z r(1) c(1) by simp
    show "10 \<notin> set ?d" by (rule t(4))
    show "resolve (demo_env 0) (lock demo_args) \<noteq> resolve (demo_env 0) (log demo_args)"
      by (rule n)
    show "prefix (py ''earlier entry'' @ [10])
            (content (files (snd (main demo_args (demo_env 0) demo_world))) 2)"
      using t(5) n r(3) c(1) by simp
  qed
qed

text \<open>
  C8 as the specification words it does not hold when the lock path names the file that
  the log path names (here through \<open>/var/log/./aws_s3_sync.log\<close>): taking the lock
  empties the log, and the entry that follows is all the log then holds.
\<close>

theorem log_emptied_counterexample:
  "lock (demo_args\<lparr>lock := py ''/var/log/./aws_s3_sync.log''\<rparr>)
     \<noteq> log (demo_args\<lparr>lock := py ''/var/log/./aws_s3_sync.log''\<rparr>) \<and>
   fst (main (demo_args\<lparr>lock := py ''/var/log/./aws_s3_sync.log''\<rparr>) (demo_env 0)
          demo_world) = None \<and>
   content (files demo_world)
     (resolve (demo_env 0) (log (demo_args\<lparr>lock := py ''/var/log/./aws_s3_sync.log''\<rparr>)))
     = py ''earlier entry'' @ [10] \<and>
   \<not> prefix
       (content (files demo_world)
          (resolve (demo_env 0)
             (log (demo_args\<lparr>lock := py ''/var/log/./aws_s3_sync.log''\<rparr>))))
       (content
          (files (snd (main (demo_args\<lparr>lock := py ''/var/log/./aws_s3_sync.log''\<rparr>)
                         (demo_env 0) demo_world)))
          (resolve (demo_env 0)
             (log (demo_args\<lparr>lock := py ''/var/log/./aws_s3_sync.log''\<rparr>))))"
proof -
  let ?a = "demo_args\<lparr>lock := py ''/var/log/./aws_s3_sync.log''\<rparr>"
  let ?m = "main ?a (demo_env 0) demo_world"
  have n: "lock ?a \<noteq> log ?a" by (simp add: demo_args_def demo_paths_differ)
  have g: "fst (acquire_lock (demo_env 0) (lock ?a) demo_world)"
    by (simp add: acquire_lock_fst demo_env_def)
  have r: "run (demo_env 0) (cmd ?a) = Exited 0 (py ''upload: a.txt'') (py ''fatal error'')"
    by (simp add: demo_env_def)
  have e: "openable (demo_env 0) p" "short_write (demo_env 0) p d = None"
    "print_stdout (demo_env 0) t = None" for p d t
    by (simp_all add: demo_env_def)
  have f: "o_flag ?a" by (simp add: demo_args_def)
  have v: "resolve (demo_env 0) (log ?a) = 2" "resolve (demo_env 0) (lock ?a) = 2"
    by (simp_all add: demo_env_def demo_args_def demo_resolve_paths)
  have c: "content (files demo_world) (resolve (demo_env 0) (log ?a)) = py ''earlier entry'' @ [10]"
    by (simp add: v[simplified] demo_world_def content_def)
  have z: "fst ?m = None"
    using e f by (simp add: main_exited[OF g r] print_out_fst)
  have "content (files (snd ?m)) (resolve (demo_env 0) (log ?a))
          = log_line (demo_env 0) (unique_id (time_us (demo_env 0)) (pid (demo_env 0)))
              (py ''info'') (py ''Sync successful.'')
              (extra_info ?a (py ''upload: a.txt'') (clock demo_world)
                 (run_returns_at (demo_env 0)))"
    using e f by (simp add: main_exited[OF g r] print_out_snd v[simplified] content_def)
  then have h: "hd (content (files (snd ?m)) (resolve (demo_env 0) (log ?a))) = 123"
    by (simp add: log_line_def log_entry_def)
  have "hd (py ''earlier entry'' @ [10]) = 101" by (simp add: py_def)
  with h c have p: "\<not> prefix (content (files demo_world) (resolve (demo_env 0) (log ?a)))
       (content (files (snd ?m)) (resolve (demo_env 0) (log ?a)))"
    by (auto simp: prefix_def py_def)
  show ?thesis by (intro conjI) (rule n z c p)+
qed

text \<open>
  C9. Once the lock is taken, \<open>subprocess.run\<close> is called exactly once, with
  \<open>aws s3 sync\<close>, the source, the destination and the caller's further arguments in
  their order. When the command has exited, its exit code decides status and message,
  and its output goes unchanged into the \<open>sync_output\<close> field of the record that is
  handed to \<open>f.write\<close>.
\<close>

theorem command_spawned_once_verbatim:
  assumes "fst (acquire_lock e (lock a) w)"
  shows "map snd (spawned (snd (main a e w))) =
           map snd (spawned w)
           @ [[py ''aws'', py ''s3'', py ''sync'', source a, destination a] @ sync_options a]
         \<and> (run e ([py ''aws'', py ''s3'', py ''sync'', source a, destination a] @ sync_options a)
               = Exited rc out err \<longrightarrow>
             writes (snd (main a e w)) = writes w @
               (if openable e (log a) then
                  [(log a,
                    dumps (JObject
                      [(py ''timestamp'', JString (strftime_iso (utcnow e))),
                       (py ''unique_id'', JString (unique_id (time_us e) (pid e))),
                       (py ''status'', JString (if rc = 0 then py ''info'' else py ''error'')),
                       (py ''message'', JString
                          (if rc = 0 then py ''Sync successful.''
                           else if rc = 1
                           then py ''Sync failed due to a general error, exit code 1''
                           else if rc = 2
                           then py ''Sync failed due to a permission error, exit code 2''
                           else py ''Sync failed with exit code '' @ str_int rc)),
                       (py ''extra_info'', JObject
                          [(py ''source'', JString (source a)),
                           (py ''destination'', JString (destination a)),
                           (py ''options'', JString (join (py '' '') (sync_options a))),
                           (py ''sync_output'',
                            JString (if rc = 0 then out else out @ [10] @ err)),
                           (py ''start_time'', JString (strftime_plain (clock w))),
                           (py ''end_time'', JString (strftime_plain (run_returns_at e))),
                           (py ''duration'', JString
                              (str_timedelta
                                 (datetime_sub (run_returns_at e) (clock w))))])])
                    @ [10])]
                else []))"
proof (intro conjI impI)
  show "map snd (spawned (snd (main a e w))) =
          map snd (spawned w)
          @ [[py ''aws'', py ''s3'', py ''sync'', source a, destination a] @ sync_options a]"
    by (simp add: main_spawned[OF assms] cmd_def)
next
  assume "run e ([py ''aws'', py ''s3'', py ''sync'', source a, destination a] @ sync_options a)
            = Exited rc out err"
  then have r: "run e (cmd a) = Exited rc out err" by (simp add: cmd_def)
  show "writes (snd (main a e w)) = writes w @
               (if openable e (log a) then
                  [(log a,
                    dumps (JObject
                      [(py ''timestamp'', JString (strftime_iso (utcnow e))),
                       (py ''unique_id'', JString (unique_id (time_us e) (pid e))),
                       (py ''status'', JString (if rc = 0 then py ''info'' else py ''error'')),
                       (py ''message'', JString
                          (if rc = 0 then py ''Sync successful.''
                           else if rc = 1
                           then py ''Sync failed due to a general error, exit code 1''
                           else if rc = 2
                           then py ''Sync failed due to a permission error, exit code 2''
                           else py ''Sync failed with exit code '' @ str_int rc)),
                       (py ''extra_info'', JObject
                          [(py ''source'', JString (source a)),
                           (py ''destination'', JString (destination a)),
                           (py ''options'', JString (join (py '' '') (sync_options a))),
                           (py ''sync_output'',
                            JString (if rc = 0 then out else out @ [10] @ err)),
                           (py ''start_time'', JString (strftime_plain (clock w))),
                           (py ''end_time'', JString (strftime_plain (run_returns_at e))),
                           (py ''duration'', JString
                              (str_timedelta
                                 (datetime_sub (run_returns_at e) (clock w))))])])
                    @ [10])]
                else [])"
    by (simp add: main_writes[OF assms r] log_line_def log_entry_def extra_info_def)
qed

theorem command_spawned_once_verbatim_witness:
  "fst (acquire_lock (demo_env 2) (lock demo_args) demo_world) \<and>
   run (demo_env 2)
     [py ''aws'', py ''s3'', py ''sync'', py ''/data'', py ''s3://bucket/data'',
      py ''--delete'', py ''--quiet'']
     = Exited 2 (py ''upload: a.txt'') (py ''fatal error'') \<and>
   map snd (spawned (snd (main demo_args (demo_env 2) demo_world))) =
     [[py ''aws'', py ''s3'', py ''sync'', py ''/data'', py ''s3://bucket/data'',
       py ''--delete'', py ''--quiet'']] \<and>
   writes (snd (main demo_args (demo_env 2) demo_world)) =
     [(py ''/var/log/aws_s3_sync.log'',
       dumps (JObject
         [(py ''timestamp'', JString (py ''2026-11-01T09:00:03Z'')),
          (py ''unique_id'', JString (unique_id 1793523600123456 4242)),
          (py ''status'', JString (py ''error'')),
          (py ''message'',
           JString (py ''Sync failed due to a permission error, exit code 2'')),
          (py ''extra_info'', JObject
             [(py ''source'', JString (py ''/data'')),
              (py ''destination'', JString (py ''s3://bucket/data'')),
              (py ''options'', JString (py ''--delete --quiet'')),
              (py ''sync_output'', JString (py ''upload: a.txt'' @ [10] @ py ''fatal error'')),
              (py ''start_time'', JString (py ''2026-11-01 01:00:00'')),
              (py ''end_time'', JString (py ''2026-11-01 01:00:03'')),
              (py ''duration'', JString (py ''0:00:03''))])])
       @ [10])]"
proof -
  have g: "fst (acquire_lock (demo_env 2) (lock demo_args) demo_world)"
    by (simp add: acquire_lock_fst demo_env_def)
  have r: "run (demo_env 2)
     ([py ''aws'', py ''s3'', py ''sync'', source demo_args, destination demo_args]
       @ sync_options demo_args)
     = Exited 2 (py ''upload: a.txt'') (py ''fatal error'')"
    by (simp add: demo_env_def)
  have j: "join (py '' '') (sync_options demo_args) = py ''--delete --quiet''"
    by (simp add: demo_args_def py_def)
  have d: "clock demo_world = at 1 0 0" "run_returns_at (demo_env 2) = at 1 0 3"
    "utcnow (demo_env 2) = at 9 0 3" "\<And>p. openable (demo_env 2) p"
    "time_us (demo_env 2) = 1793523600123456" "pid (demo_env 2) = 4242"
    "writes demo_world = []" "spawned demo_world = []" "source demo_args = py ''/data''"
    "destination demo_args = py ''s3://bucket/data''"
    "log demo_args = py ''/var/log/aws_s3_sync.log''"
    "sync_options demo_args = [py ''--delete'', py ''--quiet'']"
    by (simp_all add: demo_world_def demo_env_def demo_args_def)
  note t = command_spawned_once_verbatim[OF g, of 2 "py ''upload: a.txt''" "py ''fatal error''"]
  show ?thesis
  proof (intro conjI)
    show "fst (acquire_lock (demo_env 2) (lock demo_args) demo_world)" by (rule g)
    show "run (demo_env 2)
       [py ''aws'', py ''s3'', py ''sync'', py ''/data'', py ''s3://bucket/data'',
        py ''--delete'', py ''--quiet'']
       = Exited 2 (py ''upload: a.txt'') (py ''fatal error'')"
      by (simp add: demo_env_def)
    show "map snd (spawned (snd (main demo_args (demo_env 2) demo_world))) =
       [[py ''aws'', py ''s3'', py ''sync'', py ''/data'', py ''s3://bucket/data'',
         py ''--delete'', py ''--quiet'']]"
      using t[THEN conjunct1] by (simp add: d)
    show "writes (snd (main demo_args (demo_env 2) demo_world)) =
     [(py ''/var/log/aws_s3_sync.log'',
       dumps (JObject
         [(py ''timestamp'', JString (py ''2026-11-01T09:00:03Z'')),
          (py ''unique_id'', JString (unique_id 1793523600123456 4242)),
          (py ''status'', JString (py ''error'')),
          (py ''message'',
           JString (py ''Sync failed due to a permission error, exit code 2'')),
          (py ''extra_info'', JObject
             [(py ''source'', JString (py ''/data'')),
              (py ''destination'', JString (py ''s3://bucket/data'')),
              (py ''options'', JString (py ''--delete --quiet'')),
              (py ''sync_output'', JString (py ''upload: a.txt'' @ [10] @ py ''fatal error'')),
              (py ''start_time'', JString (py ''2026-11-01 01:00:00'')),
              (py ''end_time'', JString (py ''2026-11-01 01:00:03'')),
              (py ''duration'', JString (py ''0:00:03''))])])
       @ [10])]"
      using t[THEN conjunct2, THEN mp, OF r] j
      by (simp add: d at_iso at_plain at_durations del: One_nat_def)
  qed
qed

text \<open>
  C10. When the command exits with code 0 the entry's \<open>sync_output\<close> is its standard
  output alone, and the standard error appears nowhere in the entry; on any other exit
  code \<open>sync_output\<close> is the standard output, a newline, and the standard error.
\<close>

theorem sync_output_by_exit_code:
  assumes "fst (acquire_lock e (lock a) w)" and "run e (cmd a) = Exited rc out err"
    and "openable e (log a)"
  shows "writes (snd (main a e w)) = writes w @
     [(log a, log_line e (unique_id (time_us e) (pid e))
        (if rc = 0 then py ''info'' else py ''error'')
        (if rc = 0 then py ''Sync successful.''
         else if rc = 1 then py ''Sync failed due to a general error, exit code 1''
         else if rc = 2 then py ''Sync failed due to a permission error, exit code 2''
         else py ''Sync failed with exit code '' @ str_int rc)
        (JObject
          [(py ''source'', JString (source a)),
           (py ''destination'', JString (destination a)),
           (py ''options'', JString (join (py '' '') (sync_options a))),
           (py ''sync_output'', JString (if rc = 0 then out else out @ [10] @ err)),
           (py ''start_time'', JString (strftime_plain (clock w))),
           (py ''end_time'', JString (strftime_plain (run_returns_at e))),
           (py ''duration'',
            JString (str_timedelta (datetime_sub (run_returns_at e) (clock w))))]))]"
  using main_writes[OF assms(1,2)] assms(3) by (simp add: extra_info_def)

theorem sync_output_by_exit_code_witness:
  "fst (acquire_lock (demo_env 0) (lock demo_args) demo_world) \<and>
   run (demo_env 0) (cmd demo_args) = Exited 0 (py ''upload: a.txt'') (py ''fatal error'') \<and>
   openable (demo_env 0) (log demo_args) \<and>
   writes (snd (main demo_args (demo_env 0) demo_world)) =
     [(py ''/var/log/aws_s3_sync.log'',
       log_line (demo_env 0) (unique_id 1793523600123456 4242) (py ''info'')
         (py ''Sync successful.'')
         (JObject
           [(py ''source'', JString (py ''/data'')),
            (py ''destination'', JString (py ''s3://bucket/data'')),
            (py ''options'', JString (py ''--delete --quiet'')),
            (py ''sync_output'', JString (py ''upload: a.txt'')),
            (py ''start_time'', JString (strftime_plain (at 1 0 0))),
            (py ''end_time'', JString (strftime_plain (at 1 0 3))),
            (py ''duration'', JString (str_timedelta (datetime_sub (at 1 0 3) (at 1 0 0))))]))]"
proof -
  have g: "fst (acquire_lock (demo_env 0) (lock demo_args) demo_world)"
    by (simp add: acquire_lock_fst demo_env_def)
  have r: "run (demo_env 0) (cmd demo_args)
             = Exited 0 (py ''upload: a.txt'') (py ''fatal error'')"
    by (simp add: demo_env_def)
  have l: "openable (demo_env 0) (log demo_args)" by (simp add: demo_env_def)
  have j: "join (py '' '') [py ''--delete'', py ''--quiet''] = py ''--delete --quiet''"
    by (simp add: py_def)
  show ?thesis
    using sync_output_by_exit_code[OF g r l] g r l j
    by (simp add: demo_env_def demo_args_def demo_world_def)
qed

end
